theory Spec2Isabelle
  imports Main "HOL-Library.Word"
begin

unbundle bit_operations_syntax

section \<open>The usb-rt transfer engine\<close>

text \<open>
  \<^verbatim>\<open>usb-rt.c\<close> is present in two copies. The first (lines 1-701,
  \<^verbatim>\<open>WRITES_IN_FLIGHT 8\<close>, torn-down session marked by \<^verbatim>\<open>dev->interface = NULL\<close>)
  is called v1 here, the second (lines 702-1494, \<^verbatim>\<open>WRITES_IN_FLIGHT 1\<close>, a
  \<^verbatim>\<open>disconnected\<close> bit, one preallocated send URB) is called v2. A function whose text
  is the same in both copies is embedded once; a function that differs is embedded twice,
  with the suffixes \<open>_v1\<close> and \<open>_v2\<close>.

  Each file operation is one atomic step of the model. The points where the C code
  suspends (the semaphore, the wait queue, the interruptible mutex) and the calls into
  the USB core take their outcome from an explicit environment argument; a call that
  would stay suspended under the given environment returns \<open>None\<close>.
\<close>

subsection \<open>C types and kernel constants\<close>

text \<open>\<^verbatim>\<open>size_t\<close> is 64 bits wide (unsigned, wraps); \<^verbatim>\<open>int\<close> values are error codes
  that the driver only assigns and compares, so they are HOL integers, and the one
  narrowing assignment \<^verbatim>\<open>rv = chunk\<close> is written out.\<close>

type_synonym size_t = "64 word"
type_synonym byte = "8 word"

abbreviation ENOENT :: int where "ENOENT \<equiv> 2"
abbreviation EINTR :: int where "EINTR \<equiv> 4"
abbreviation EIO :: int where "EIO \<equiv> 5"
abbreviation EAGAIN :: int where "EAGAIN \<equiv> 11"
abbreviation ENOMEM :: int where "ENOMEM \<equiv> 12"
abbreviation EFAULT :: int where "EFAULT \<equiv> 14"
abbreviation ENODEV :: int where "ENODEV \<equiv> 19"
abbreviation EPIPE :: int where "EPIPE \<equiv> 32"
abbreviation ETIMEDOUT :: int where "ETIMEDOUT \<equiv> 110"
abbreviation ERESTARTSYS :: int where "ERESTARTSYS \<equiv> 512"

abbreviation O_NONBLOCK :: "32 word" where "O_NONBLOCK \<equiv> 0x800"

abbreviation POLLIN :: "32 word" where "POLLIN \<equiv> 0x001"
abbreviation POLLPRI :: "32 word" where "POLLPRI \<equiv> 0x002"
abbreviation POLLOUT :: "32 word" where "POLLOUT \<equiv> 0x004"
abbreviation POLLERR :: "32 word" where "POLLERR \<equiv> 0x008"
abbreviation POLLRDNORM :: "32 word" where "POLLRDNORM \<equiv> 0x040"
abbreviation POLLWRNORM :: "32 word" where "POLLWRNORM \<equiv> 0x100"

subsection \<open>Data model\<close>

text \<open>\<^verbatim>\<open>struct usb_rt\<close>, with the fields of both copies. A pointer that the code only
  tests against \<^verbatim>\<open>NULL\<close> is a boolean (\<open>True\<close>: not \<^verbatim>\<open>NULL\<close>); the semaphore is
  its count; the anchor is the number of URBs on it.\<close>

record usb_rt =
  interface :: bool
  limit_sem :: nat
  submitted :: nat
  bulk_in_urb :: bool
  bulk_in_buffer :: "byte list"
  bulk_in_size :: size_t
  bulk_out_size :: size_t
  bulk_in_filled :: size_t
  bulk_in_copied :: size_t
  errors :: int
  ongoing_read :: bool
  kref :: nat
  disconnected :: bool
  has_text_api :: bool

text \<open>The session together with what the USB core and the driver core hold for it:
  whether the receive URB is in flight and with which \<^verbatim>\<open>transfer_buffer_length\<close>,
  how many send URBs are in flight, whether the minor (the device node) is registered,
  whether the interface data pointer is set, whether the \<^verbatim>\<open>text_api\<close> attribute file
  exists, whether \<^verbatim>\<open>usb_rt_delete\<close> has freed the session, and how many open files
  point to it.\<close>

record system = usb_rt +
  rx_in_flight :: bool
  rx_length :: "32 word"
  tx_in_flight :: nat
  minor_registered :: bool
  intfdata :: bool
  text_api_file :: bool
  freed :: bool
  open_files :: nat

text \<open>The fields of \<^verbatim>\<open>struct urb\<close> that a completion handler reads, and the fields of
  \<^verbatim>\<open>struct file\<close> that the operations read.\<close>

record urb =
  status :: int
  actual_length :: "32 word"

record file_struct =
  f_flags :: "32 word"
  private_data :: bool

subsection \<open>Semaphore, reference count\<close>

definition up :: "system \<Rightarrow> system" where
  "up dev = dev\<lparr>limit_sem := limit_sem dev + 1\<rparr>"

text \<open>\<^verbatim>\<open>down_trylock\<close> returns 0 when it took a unit and 1 otherwise.\<close>

definition down_trylock :: "system \<Rightarrow> int \<times> system" where
  "down_trylock dev =
     (if 0 < limit_sem dev then (0, dev\<lparr>limit_sem := limit_sem dev - 1\<rparr>) else (1, dev))"

text \<open>\<^verbatim>\<open>down_interruptible\<close> takes a free unit at once; with none free it sleeps, and
  returns \<^verbatim>\<open>-EINTR\<close> when a signal arrives. Without a signal the caller stays asleep
  until a completion releases a unit, which is a later state of the model.\<close>

definition down_interruptible :: "bool \<Rightarrow> system \<Rightarrow> (int \<times> system) option" where
  "down_interruptible signal dev =
     (if 0 < limit_sem dev then Some (0, dev\<lparr>limit_sem := limit_sem dev - 1\<rparr>)
      else if signal then Some (- EINTR, dev)
      else None)"

definition usb_rt_delete :: "system \<Rightarrow> system" where
  "usb_rt_delete dev = dev\<lparr>freed := True\<rparr>"

definition kref_get :: "system \<Rightarrow> system" where
  "kref_get dev = dev\<lparr>kref := kref dev + 1\<rparr>"

definition kref_put :: "system \<Rightarrow> system" where
  "kref_put dev =
     (if kref dev \<le> 1 then usb_rt_delete (dev\<lparr>kref := 0\<rparr>)
      else dev\<lparr>kref := kref dev - 1\<rparr>)"

subsection \<open>Completion handlers\<close>

definition usb_rt_read_bulk_callback :: "urb \<Rightarrow> system \<Rightarrow> system" where
  "usb_rt_read_bulk_callback u dev =
     (let dev1 = (if status u \<noteq> 0 then dev\<lparr>errors := status u\<rparr>
                  else dev\<lparr>bulk_in_filled := ucast (actual_length u)\<rparr>)
      in dev1\<lparr>ongoing_read := False\<rparr>)"

definition usb_rt_write_bulk_callback :: "urb \<Rightarrow> system \<Rightarrow> system" where
  "usb_rt_write_bulk_callback u dev =
     (let dev1 = (if status u \<noteq> 0 then dev\<lparr>errors := status u\<rparr> else dev)
      in up dev1)"

text \<open>The USB core gives a URB back: the receive URB leaves flight, the device has
  written \<open>data\<close> to the start of the receive buffer, and the handler runs; a send URB
  leaves flight and the anchor, and the handler runs.\<close>

definition usb_complete_rx :: "int \<Rightarrow> byte list \<Rightarrow> system \<Rightarrow> system" where
  "usb_complete_rx st data dev =
     usb_rt_read_bulk_callback \<lparr>status = st, actual_length = of_nat (length data)\<rparr>
       (dev\<lparr>rx_in_flight := False,
            bulk_in_buffer := data @ drop (length data) (bulk_in_buffer dev)\<rparr>)"

definition usb_complete_tx :: "int \<Rightarrow> system \<Rightarrow> system" where
  "usb_complete_tx st dev =
     usb_rt_write_bulk_callback \<lparr>status = st, actual_length = 0\<rparr>
       (dev\<lparr>tx_in_flight := tx_in_flight dev - 1, submitted := submitted dev - 1\<rparr>)"

subsection \<open>Starting a receive\<close>

text \<open>\<^verbatim>\<open>usb_submit_urb\<close> on the receive URB returns the environment's result \<open>rv\<close>
  (0, or a negative error code); the URB is in flight exactly when it returned 0.\<close>

definition usb_submit_urb_in :: "int \<Rightarrow> system \<Rightarrow> int \<times> system" where
  "usb_submit_urb_in rv dev = (rv, if rv = 0 then dev\<lparr>rx_in_flight := True\<rparr> else dev)"

definition usb_rt_do_read_io :: "int \<Rightarrow> size_t \<Rightarrow> system \<Rightarrow> int \<times> system" where
  "usb_rt_do_read_io submit_rv count dev =
     (let dev1 = dev\<lparr>rx_length := ucast (min (bulk_in_size dev) count)\<rparr>;
          dev2 = dev1\<lparr>ongoing_read := True\<rparr>;
          dev3 = dev2\<lparr>bulk_in_filled := 0, bulk_in_copied := 0\<rparr>;
          (rv, dev4) = usb_submit_urb_in submit_rv dev3
      in if rv < 0
         then (if rv = - ENOMEM then rv else - EIO, dev4\<lparr>ongoing_read := False\<rparr>)
         else (rv, dev4))"

subsection \<open>Draw-down and flush\<close>

text \<open>\<^verbatim>\<open>usb_kill_urb\<close> on the receive URB: a URB in flight is given back with
  \<^verbatim>\<open>-ENOENT\<close>, an idle one is left alone.\<close>

definition usb_kill_urb_in :: "system \<Rightarrow> system" where
  "usb_kill_urb_in dev = (if rx_in_flight dev then usb_complete_rx (- ENOENT) [] dev else dev)"

fun kill_tx :: "nat \<Rightarrow> system \<Rightarrow> system" where
  "kill_tx 0 dev = dev"
| "kill_tx (Suc n) dev = kill_tx n (usb_complete_tx (- ENOENT) dev)"

text \<open>\<^verbatim>\<open>usb_kill_anchored_urbs\<close>: every send in flight is given back with
  \<^verbatim>\<open>-ENOENT\<close>, and the anchor is left empty.\<close>

definition usb_kill_anchored_urbs :: "system \<Rightarrow> system" where
  "usb_kill_anchored_urbs dev = (kill_tx (tx_in_flight dev) dev)\<lparr>submitted := 0\<rparr>"

text \<open>\<^verbatim>\<open>usb_wait_anchor_empty_timeout\<close>: \<open>sts\<close> are the statuses with which sends
  complete by themselves during the wait; the result is 0 when the anchor is still
  occupied at the end of it.\<close>

fun usb_wait_anchor_empty_timeout :: "int list \<Rightarrow> system \<Rightarrow> int \<times> system" where
  "usb_wait_anchor_empty_timeout [] dev = (if submitted dev = 0 then 1 else 0, dev)"
| "usb_wait_anchor_empty_timeout (st # sts) dev =
     (if tx_in_flight dev = 0 then (if submitted dev = 0 then 1 else 0, dev)
      else usb_wait_anchor_empty_timeout sts (usb_complete_tx st dev))"

definition usb_rt_draw_down :: "int list \<Rightarrow> system \<Rightarrow> system" where
  "usb_rt_draw_down sts dev =
     (let (time, dev1) = usb_wait_anchor_empty_timeout sts dev;
          dev2 = (if time = 0 then usb_kill_anchored_urbs dev1 else dev1)
      in usb_kill_urb_in dev2)"

definition usb_rt_flush :: "file_struct \<Rightarrow> int list \<Rightarrow> system \<Rightarrow> int \<times> system" where
  "usb_rt_flush filp sts dev =
     (if \<not> private_data filp then (- ENODEV, dev)
      else
        let dev1 = usb_rt_draw_down sts dev;
            res = (if errors dev1 \<noteq> 0 then (if errors dev1 = - EPIPE then - EPIPE else - EIO)
                   else 0)
        in (res, dev1\<lparr>errors := 0\<rparr>))"

subsection \<open>Readiness query\<close>

text \<open>\<open>submit_rv\<close> is what \<^verbatim>\<open>usb_submit_urb\<close> returns if the query starts a receive.
  The first copy takes no lock and reads no error slot.\<close>

definition usb_rt_poll_v1 :: "int \<Rightarrow> system \<Rightarrow> 32 word \<times> system" where
  "usb_rt_poll_v1 submit_rv dev =
     (let retval = POLLWRNORM OR POLLPRI OR POLLOUT;
          ongoing_io = ongoing_read dev
      in if ongoing_io then (retval, dev)
         else if bulk_in_filled dev - bulk_in_copied dev \<noteq> 0
         then (retval OR POLLRDNORM OR POLLIN, dev)
         else (retval, snd (usb_rt_do_read_io submit_rv (bulk_in_size dev) dev)))"

text \<open>The second copy: \<open>lock_rv\<close> is the result of \<^verbatim>\<open>mutex_lock_interruptible\<close>
  (0, or \<^verbatim>\<open>-EINTR\<close>); an \<^verbatim>\<open>int\<close> stored in the \<^verbatim>\<open>unsigned int\<close> result wraps.\<close>

definition usb_rt_poll_v2 :: "int \<Rightarrow> int \<Rightarrow> system \<Rightarrow> 32 word \<times> system" where
  "usb_rt_poll_v2 lock_rv submit_rv dev =
     (let retval = POLLWRNORM OR POLLPRI OR POLLOUT
      in if lock_rv < 0 then (word_of_int lock_rv, dev)
         else if disconnected dev then (word_of_int (- ENODEV), dev)
         else if ongoing_read dev then (retval, dev)
         else if errors dev \<noteq> 0 then (POLLERR, dev)
         else if bulk_in_filled dev - bulk_in_copied dev \<noteq> 0
         then (retval OR POLLRDNORM OR POLLIN, dev)
         else
           let (rv, dev1) = usb_rt_do_read_io submit_rv (bulk_in_size dev) dev
           in if rv \<noteq> 0 then (POLLERR, dev1) else (retval, dev1))"

subsection \<open>Read\<close>

text \<open>What ends a sleep on \<^verbatim>\<open>bulk_in_wait\<close>: a signal, the expiry of the timeout, or
  the completion of the receive URB with a status and the bytes received.\<close>

datatype wait_outcome = Wait_signal | Wait_timeout | Wait_done int "byte list"

text \<open>\<^verbatim>\<open>wait_event_interruptible\<close> (first copy) has no timeout. The caller stays
  suspended (\<open>None\<close>) while nothing happens. A completion can only be that of the
  receive URB in flight, with at most \<^verbatim>\<open>transfer_buffer_length\<close> bytes.\<close>

definition wait_event_interruptible ::
  "wait_outcome list \<Rightarrow> system \<Rightarrow> (int \<times> system \<times> wait_outcome list) option" where
  "wait_event_interruptible ws dev =
     (case ws of
        [] \<Rightarrow> None
      | Wait_signal # ws1 \<Rightarrow> Some (- ERESTARTSYS, dev, ws1)
      | Wait_timeout # ws1 \<Rightarrow> None
      | Wait_done st data # ws1 \<Rightarrow>
          if rx_in_flight dev \<and> length data \<le> unat (rx_length dev)
          then Some (0, usb_complete_rx st data dev, ws1) else None)"

text \<open>\<^verbatim>\<open>wait_event_interruptible_timeout\<close> (second copy) returns 0 on expiry and the
  remaining time, at least 1, when the condition became true.\<close>

definition wait_event_interruptible_timeout ::
  "wait_outcome list \<Rightarrow> system \<Rightarrow> (int \<times> system \<times> wait_outcome list) option" where
  "wait_event_interruptible_timeout ws dev =
     (case ws of
        [] \<Rightarrow> None
      | Wait_signal # ws1 \<Rightarrow> Some (- ERESTARTSYS, dev, ws1)
      | Wait_timeout # ws1 \<Rightarrow> Some (0, dev, ws1)
      | Wait_done st data # ws1 \<Rightarrow>
          if rx_in_flight dev \<and> length data \<le> unat (rx_length dev)
          then Some (1, usb_complete_rx st data dev, ws1) else None)"

text \<open>\<^verbatim>\<open>copy_to_user\<close> of \<open>n\<close> bytes from offset \<open>off\<close> of the receive buffer; \<open>left\<close> is
  the number of bytes that could not be copied (0: success). The result is that number
  and the bytes that reached the caller.\<close>

definition copy_to_user :: "size_t \<Rightarrow> byte list \<Rightarrow> size_t \<Rightarrow> size_t \<Rightarrow> size_t \<times> byte list" where
  "copy_to_user left buf off n =
     (left, take (unat n - unat left) (take (unat n) (drop (unat off) buf)))"

text \<open>The body of \<^verbatim>\<open>usb_rt_read\<close> from the label \<^verbatim>\<open>retry\<close> on. \<open>ws\<close> are the outcomes
  of the sleeps and \<open>submits\<close> the results of the submissions, in the order in which the
  call meets them. The result is the returned value, the bytes copied to the caller and
  the new state.\<close>

fun usb_rt_read_retry_v1 ::
  "file_struct \<Rightarrow> size_t \<Rightarrow> size_t \<Rightarrow> wait_outcome list \<Rightarrow> int list \<Rightarrow> system
   \<Rightarrow> (int \<times> byte list \<times> system) option" where
  "usb_rt_read_retry_v1 filp count left ws submits dev =
     (case (if ongoing_read dev
            then (if f_flags filp AND O_NONBLOCK \<noteq> 0 then Some (- EAGAIN, dev, ws)
                  else wait_event_interruptible ws dev)
            else Some (0, dev, ws)) of
        None \<Rightarrow> None
      | Some (rv, dev1, ws1) \<Rightarrow>
          if rv < 0 then Some (rv, [], dev1)
          else if errors dev1 < 0
          then Some (if errors dev1 = - EPIPE then errors dev1 else - EIO, [],
                     dev1\<lparr>errors := 0\<rparr>)
          else if bulk_in_filled dev1 \<noteq> 0
          then
            (let available = bulk_in_filled dev1 - bulk_in_copied dev1;
                 chunk = min available count
             in if available = 0
                then (case submits of
                        [] \<Rightarrow> None
                      | s # submits1 \<Rightarrow>
                          (case usb_rt_do_read_io s count dev1 of
                             (rv1, dev2) \<Rightarrow>
                               if rv1 < 0 then Some (rv1, [], dev2)
                               else usb_rt_read_retry_v1 filp count left ws1 submits1 dev2))
                else
                  (case copy_to_user left (bulk_in_buffer dev1) (bulk_in_copied dev1) chunk of
                     (fault, data) \<Rightarrow>
                       Some (if fault \<noteq> 0 then - EFAULT else sint (ucast chunk :: 32 word),
                             data,
                             dev1\<lparr>bulk_in_copied := bulk_in_copied dev1 + chunk\<rparr>)))
          else (case submits of
                  [] \<Rightarrow> None
                | s # submits1 \<Rightarrow>
                    (case usb_rt_do_read_io s count dev1 of
                       (rv1, dev2) \<Rightarrow>
                         if rv1 < 0 then Some (rv1, [], dev2)
                         else usb_rt_read_retry_v1 filp count left ws1 submits1 dev2)))"

fun usb_rt_read_retry_v2 ::
  "file_struct \<Rightarrow> size_t \<Rightarrow> size_t \<Rightarrow> wait_outcome list \<Rightarrow> int list \<Rightarrow> system
   \<Rightarrow> (int \<times> byte list \<times> system) option" where
  "usb_rt_read_retry_v2 filp count left ws submits dev =
     (case (if ongoing_read dev
            then (if f_flags filp AND O_NONBLOCK \<noteq> 0 then Some (- EAGAIN, dev, ws)
                  else (case wait_event_interruptible_timeout ws dev of
                          None \<Rightarrow> None
                        | Some (rv, dev1, ws1) \<Rightarrow>
                            if rv \<le> 0
                            then Some (if rv = 0 then - ETIMEDOUT else rv, dev1, ws1)
                            else Some (rv, dev1, ws1)))
            else Some (0, dev, ws)) of
        None \<Rightarrow> None
      | Some (rv, dev1, ws1) \<Rightarrow>
          if rv < 0 then Some (rv, [], dev1)
          else if errors dev1 < 0
          then Some (if errors dev1 = - EPIPE then errors dev1 else - EIO, [],
                     dev1\<lparr>errors := 0\<rparr>)
          else if bulk_in_filled dev1 \<noteq> 0
          then
            (let available = bulk_in_filled dev1 - bulk_in_copied dev1;
                 chunk = min available count
             in if available = 0
                then (case submits of
                        [] \<Rightarrow> None
                      | s # submits1 \<Rightarrow>
                          (case usb_rt_do_read_io s count dev1 of
                             (rv1, dev2) \<Rightarrow>
                               if rv1 < 0 then Some (rv1, [], dev2)
                               else usb_rt_read_retry_v2 filp count left ws1 submits1 dev2))
                else
                  (case copy_to_user left (bulk_in_buffer dev1) (bulk_in_copied dev1) chunk of
                     (fault, data) \<Rightarrow>
                       Some (if fault \<noteq> 0 then - EFAULT else sint (ucast chunk :: 32 word),
                             data,
                             dev1\<lparr>bulk_in_copied := bulk_in_copied dev1 + chunk\<rparr>)))
          else (case submits of
                  [] \<Rightarrow> None
                | s # submits1 \<Rightarrow>
                    (case usb_rt_do_read_io s count dev1 of
                       (rv1, dev2) \<Rightarrow>
                         if rv1 < 0 then Some (rv1, [], dev2)
                         else usb_rt_read_retry_v2 filp count left ws1 submits1 dev2)))"

text \<open>The environment of one \<^verbatim>\<open>read\<close> call: the result of
  \<^verbatim>\<open>mutex_lock_interruptible\<close>, the number of bytes \<^verbatim>\<open>copy_to_user\<close> fails to copy,
  the outcomes of the sleeps and the results of the submissions.\<close>

record read_env =
  r_lock :: int
  r_left :: size_t
  r_waits :: "wait_outcome list"
  r_submits :: "int list"

definition usb_rt_read_v1 ::
  "file_struct \<Rightarrow> size_t \<Rightarrow> read_env \<Rightarrow> system \<Rightarrow> (int \<times> byte list \<times> system) option" where
  "usb_rt_read_v1 filp count env dev =
     (if \<not> bulk_in_urb dev \<or> count = 0 then Some (0, [], dev)
      else if r_lock env < 0 then Some (r_lock env, [], dev)
      else if \<not> interface dev then Some (- ENODEV, [], dev)
      else usb_rt_read_retry_v1 filp count (r_left env) (r_waits env) (r_submits env) dev)"

definition usb_rt_read_v2 ::
  "file_struct \<Rightarrow> size_t \<Rightarrow> read_env \<Rightarrow> system \<Rightarrow> (int \<times> byte list \<times> system) option" where
  "usb_rt_read_v2 filp count env dev =
     (if \<not> bulk_in_urb dev \<or> count = 0 then Some (0, [], dev)
      else if r_lock env < 0 then Some (r_lock env, [], dev)
      else if disconnected dev then Some (- ENODEV, [], dev)
      else usb_rt_read_retry_v2 filp count (r_left env) (r_waits env) (r_submits env) dev)"

declare usb_rt_read_retry_v1.simps [simp del]
declare usb_rt_read_retry_v2.simps [simp del]

subsection \<open>Write\<close>

text \<open>\<^verbatim>\<open>PAGE_SIZE\<close> comes from the kernel headers and is a parameter.\<close>

definition MAX_TRANSFER :: "size_t \<Rightarrow> size_t" where
  "MAX_TRANSFER PAGE_SIZE = PAGE_SIZE - 512"

abbreviation WRITES_IN_FLIGHT_v1 :: nat where "WRITES_IN_FLIGHT_v1 \<equiv> 8"
abbreviation WRITES_IN_FLIGHT_v2 :: nat where "WRITES_IN_FLIGHT_v2 \<equiv> 1"

definition usb_anchor_urb :: "system \<Rightarrow> system" where
  "usb_anchor_urb dev = dev\<lparr>submitted := submitted dev + 1\<rparr>"

definition usb_unanchor_urb :: "system \<Rightarrow> system" where
  "usb_unanchor_urb dev = dev\<lparr>submitted := submitted dev - 1\<rparr>"

definition usb_submit_urb_out :: "int \<Rightarrow> system \<Rightarrow> int \<times> system" where
  "usb_submit_urb_out rv dev =
     (rv, if rv = 0 then dev\<lparr>tx_in_flight := tx_in_flight dev + 1\<rparr> else dev)"

text \<open>The environment of one \<^verbatim>\<open>write\<close> call: whether a signal arrives while it sleeps
  on the semaphore, whether the two allocations of the first copy succeed, the number of
  bytes \<^verbatim>\<open>copy_from_user\<close> fails to copy, and the result of \<^verbatim>\<open>usb_submit_urb\<close>.
  The payload itself is not modelled.\<close>

record write_env =
  w_signal :: bool
  w_alloc_urb :: bool
  w_alloc_buf :: bool
  w_left :: size_t
  w_submit :: int

definition usb_rt_write_v1 ::
  "size_t \<Rightarrow> file_struct \<Rightarrow> size_t \<Rightarrow> write_env \<Rightarrow> system \<Rightarrow> (int \<times> system) option" where
  "usb_rt_write_v1 PAGE_SIZE filp count env dev =
     (let writesize = min count (MAX_TRANSFER PAGE_SIZE)
      in if count = 0 then Some (0, dev)
         else
           (case (if f_flags filp AND O_NONBLOCK = 0
                  then down_interruptible (w_signal env) dev
                  else Some (down_trylock dev)) of
              None \<Rightarrow> None
            | Some (r, dev1) \<Rightarrow>
                if r \<noteq> 0
                then Some (if f_flags filp AND O_NONBLOCK = 0 then - ERESTARTSYS else - EAGAIN,
                           dev1)
                else
                  (let retval = errors dev1;
                       (retval1, dev2) =
                          (if retval < 0
                           then (if retval = - EPIPE then retval else - EIO, dev1\<lparr>errors := 0\<rparr>)
                           else (retval, dev1))
                   in if retval1 < 0 then Some (retval1, up dev2)
                      else if \<not> w_alloc_urb env then Some (- ENOMEM, up dev2)
                      else if \<not> w_alloc_buf env then Some (- ENOMEM, up dev2)
                      else if w_left env \<noteq> 0 then Some (- EFAULT, up dev2)
                      else if \<not> interface dev2 then Some (- ENODEV, up dev2)
                      else
                        (let dev3 = usb_anchor_urb dev2;
                             (retval2, dev4) = usb_submit_urb_out (w_submit env) dev3
                         in if retval2 \<noteq> 0 then Some (retval2, up (usb_unanchor_urb dev4))
                            else Some (sint writesize, dev4)))))"

text \<open>In the second copy the local \<^verbatim>\<open>urb\<close> stays \<^verbatim>\<open>NULL\<close>, so
  \<^verbatim>\<open>usb_unanchor_urb(urb)\<close> at \<^verbatim>\<open>error_unanchor\<close> does nothing.\<close>

definition usb_rt_write_v2 ::
  "file_struct \<Rightarrow> size_t \<Rightarrow> write_env \<Rightarrow> system \<Rightarrow> (int \<times> system) option" where
  "usb_rt_write_v2 filp count env dev =
     (let writesize = min count (bulk_out_size dev)
      in if count = 0 then Some (0, dev)
         else
           (case (if f_flags filp AND O_NONBLOCK = 0
                  then down_interruptible (w_signal env) dev
                  else Some (down_trylock dev)) of
              None \<Rightarrow> None
            | Some (r, dev1) \<Rightarrow>
                if r \<noteq> 0
                then Some (if f_flags filp AND O_NONBLOCK = 0 then - ERESTARTSYS else - EAGAIN,
                           dev1)
                else
                  (let retval = errors dev1;
                       (retval1, dev2) =
                          (if retval < 0
                           then (if retval = - EPIPE then retval else - EIO, dev1\<lparr>errors := 0\<rparr>)
                           else (retval, dev1))
                   in if retval1 < 0 then Some (retval1, up dev2)
                      else if w_left env \<noteq> 0 then Some (- EFAULT, up dev2)
                      else if disconnected dev2 then Some (- ENODEV, up dev2)
                      else
                        (let dev3 = usb_anchor_urb dev2;
                             (retval2, dev4) = usb_submit_urb_out (w_submit env) dev3
                         in if retval2 \<noteq> 0 then Some (retval2, up dev4)
                            else Some (sint writesize, dev4)))))"

subsection \<open>Open, release and the lifecycle events\<close>

text \<open>\<open>pm_rv\<close> is the result of \<^verbatim>\<open>usb_autopm_get_interface\<close>.\<close>

definition usb_rt_open :: "int \<Rightarrow> system \<Rightarrow> int \<times> system" where
  "usb_rt_open pm_rv dev =
     (if \<not> minor_registered dev then (- ENODEV, dev)
      else if \<not> intfdata dev then (- ENODEV, dev)
      else if pm_rv \<noteq> 0 then (pm_rv, dev)
      else (0, kref_get dev))"

definition usb_rt_release :: "file_struct \<Rightarrow> system \<Rightarrow> int \<times> system" where
  "usb_rt_release filp dev =
     (if \<not> private_data filp then (- ENODEV, dev) else (0, kref_put dev))"

text \<open>\<^verbatim>\<open>usb_rt_disconnect\<close> is a straight line of calls. Each call is a constructor, its
  effect on the state is \<open>exec\<close>, and the function is the list of its calls in program
  order. The mutex is not part of the state, so taking and releasing it changes
  nothing.\<close>

datatype call =
    Device_remove_file
  | Usb_set_intfdata_NULL
  | Usb_deregister_dev
  | Mutex_lock
  | Set_interface_NULL
  | Set_disconnected
  | Mutex_unlock
  | Usb_kill_urb_bulk_in
  | Usb_kill_anchored_urbs
  | Kref_put

fun exec :: "call \<Rightarrow> system \<Rightarrow> system" where
  "exec Device_remove_file dev = dev\<lparr>text_api_file := False\<rparr>"
| "exec Usb_set_intfdata_NULL dev = dev\<lparr>intfdata := False\<rparr>"
| "exec Usb_deregister_dev dev = dev\<lparr>minor_registered := False\<rparr>"
| "exec Mutex_lock dev = dev"
| "exec Set_interface_NULL dev = dev\<lparr>interface := False\<rparr>"
| "exec Set_disconnected dev = dev\<lparr>disconnected := True\<rparr>"
| "exec Mutex_unlock dev = dev"
| "exec Usb_kill_urb_bulk_in dev = usb_kill_urb_in dev"
| "exec Usb_kill_anchored_urbs dev = usb_kill_anchored_urbs dev"
| "exec Kref_put dev = kref_put dev"

definition usb_rt_disconnect_calls_v1 :: "system \<Rightarrow> call list" where
  "usb_rt_disconnect_calls_v1 dev =
     [Usb_set_intfdata_NULL, Usb_deregister_dev,
      Mutex_lock, Set_interface_NULL, Mutex_unlock,
      Usb_kill_anchored_urbs,
      Kref_put]"

definition usb_rt_disconnect_calls_v2 :: "system \<Rightarrow> call list" where
  "usb_rt_disconnect_calls_v2 dev =
     (if has_text_api dev then [Device_remove_file] else []) @
     [Usb_set_intfdata_NULL, Usb_deregister_dev,
      Mutex_lock, Set_disconnected, Mutex_unlock,
      Usb_kill_urb_bulk_in, Usb_kill_anchored_urbs,
      Kref_put]"

definition usb_rt_disconnect_v1 :: "system \<Rightarrow> system" where
  "usb_rt_disconnect_v1 dev = fold exec (usb_rt_disconnect_calls_v1 dev) dev"

definition usb_rt_disconnect_v2 :: "system \<Rightarrow> system" where
  "usb_rt_disconnect_v2 dev = fold exec (usb_rt_disconnect_calls_v2 dev) dev"

definition usb_rt_suspend :: "int list \<Rightarrow> system \<Rightarrow> int \<times> system" where
  "usb_rt_suspend sts dev = (if \<not> intfdata dev then (0, dev) else (0, usb_rt_draw_down sts dev))"

definition usb_rt_resume :: "system \<Rightarrow> int \<times> system" where
  "usb_rt_resume dev = (0, dev)"

definition usb_rt_pre_reset :: "int list \<Rightarrow> system \<Rightarrow> int \<times> system" where
  "usb_rt_pre_reset sts dev = (0, usb_rt_draw_down sts dev)"

definition usb_rt_post_reset :: "system \<Rightarrow> int \<times> system" where
  "usb_rt_post_reset dev = (0, dev\<lparr>errors := - EPIPE\<rparr>)"

subsection \<open>Sessions as transition systems\<close>

text \<open>\<open>V1\<close> and \<open>V2\<close> name the two copies; an operation of a session is the
  function of its copy. The operations and events of a session, each with its environment. An operation
  on an open file needs an open file; a completion needs a URB in flight; a lifecycle
  event needs the driver bound to the interface; \<^verbatim>\<open>usb_submit_urb\<close> returns 0 or a
  negative error code.\<close>

datatype variant = V1 | V2

definition torn_down :: "variant \<Rightarrow> system \<Rightarrow> bool" where
  "torn_down v dev = (case v of V1 \<Rightarrow> \<not> interface dev | V2 \<Rightarrow> disconnected dev)"

definition usb_rt_poll :: "variant \<Rightarrow> int \<Rightarrow> int \<Rightarrow> system \<Rightarrow> 32 word \<times> system" where
  "usb_rt_poll v lock_rv submit_rv dev =
     (case v of V1 \<Rightarrow> usb_rt_poll_v1 submit_rv dev
              | V2 \<Rightarrow> usb_rt_poll_v2 lock_rv submit_rv dev)"

definition usb_rt_read ::
  "variant \<Rightarrow> file_struct \<Rightarrow> size_t \<Rightarrow> read_env \<Rightarrow> system
   \<Rightarrow> (int \<times> byte list \<times> system) option" where
  "usb_rt_read v filp count env dev =
     (case v of V1 \<Rightarrow> usb_rt_read_v1 filp count env dev
              | V2 \<Rightarrow> usb_rt_read_v2 filp count env dev)"

definition usb_rt_write ::
  "variant \<Rightarrow> size_t \<Rightarrow> file_struct \<Rightarrow> size_t \<Rightarrow> write_env \<Rightarrow> system
   \<Rightarrow> (int \<times> system) option" where
  "usb_rt_write v ps filp count env dev =
     (case v of V1 \<Rightarrow> usb_rt_write_v1 ps filp count env dev
              | V2 \<Rightarrow> usb_rt_write_v2 filp count env dev)"

definition usb_rt_disconnect :: "variant \<Rightarrow> system \<Rightarrow> system" where
  "usb_rt_disconnect v dev =
     (case v of V1 \<Rightarrow> usb_rt_disconnect_v1 dev | V2 \<Rightarrow> usb_rt_disconnect_v2 dev)"

datatype op =
    Open int
  | Release
  | Flush "int list"
  | Poll int int
  | Read file_struct size_t read_env
  | Write file_struct size_t write_env
  | Rx_complete int "byte list"
  | Tx_complete int
  | Disconnect
  | Suspend "int list"
  | Resume
  | Pre_reset "int list"
  | Post_reset

fun step :: "variant \<Rightarrow> size_t \<Rightarrow> op \<Rightarrow> system \<Rightarrow> system option" where
  "step v ps (Open pm_rv) dev =
     (case usb_rt_open pm_rv dev of
        (rv, dev1) \<Rightarrow> Some (if rv = 0 then dev1\<lparr>open_files := open_files dev1 + 1\<rparr> else dev1))"
| "step v ps Release dev =
     (if 0 < open_files dev
      then Some ((snd (usb_rt_release \<lparr>f_flags = 0, private_data = True\<rparr> dev))
                   \<lparr>open_files := open_files dev - 1\<rparr>)
      else None)"
| "step v ps (Flush sts) dev =
     (if 0 < open_files dev
      then Some (snd (usb_rt_flush \<lparr>f_flags = 0, private_data = True\<rparr> sts dev))
      else None)"
| "step v ps (Poll lock_rv submit_rv) dev =
     (if 0 < open_files dev \<and> submit_rv \<le> 0
      then Some (snd (usb_rt_poll v lock_rv submit_rv dev))
      else None)"
| "step v ps (Read filp count env) dev =
     (if 0 < open_files dev \<and> list_all (\<lambda>s. s \<le> 0) (r_submits env)
      then map_option (\<lambda>r. snd (snd r)) (usb_rt_read v filp count env dev)
      else None)"
| "step v ps (Write filp count env) dev =
     (if 0 < open_files dev \<and> w_submit env \<le> 0
      then map_option snd (usb_rt_write v ps filp count env dev)
      else None)"
| "step v ps (Rx_complete st data) dev =
     (if rx_in_flight dev \<and> length data \<le> unat (rx_length dev)
      then Some (usb_complete_rx st data dev) else None)"
| "step v ps (Tx_complete st) dev =
     (if 0 < tx_in_flight dev then Some (usb_complete_tx st dev) else None)"
| "step v ps Disconnect dev =
     (if intfdata dev
      then Some (usb_rt_disconnect v dev)
      else None)"
| "step v ps (Suspend sts) dev =
     (if intfdata dev then Some (snd (usb_rt_suspend sts dev)) else None)"
| "step v ps Resume dev =
     (if intfdata dev then Some (snd (usb_rt_resume dev)) else None)"
| "step v ps (Pre_reset sts) dev =
     (if intfdata dev then Some (snd (usb_rt_pre_reset sts dev)) else None)"
| "step v ps Post_reset dev =
     (if intfdata dev then Some (snd (usb_rt_post_reset dev)) else None)"

fun run :: "variant \<Rightarrow> size_t \<Rightarrow> op list \<Rightarrow> system \<Rightarrow> system option" where
  "run v ps [] dev = Some dev"
| "run v ps (a # as) dev =
     (case step v ps a dev of None \<Rightarrow> None | Some dev1 \<Rightarrow> run v ps as dev1)"

definition WRITES_IN_FLIGHT :: "variant \<Rightarrow> nat" where
  "WRITES_IN_FLIGHT v = (case v of V1 \<Rightarrow> WRITES_IN_FLIGHT_v1 | V2 \<Rightarrow> WRITES_IN_FLIGHT_v2)"

text \<open>The state that a successful \<^verbatim>\<open>usb_rt_probe\<close> leaves: \<^verbatim>\<open>kzalloc\<close> zeroes the
  session, then the reference count is 1, the semaphore holds
  \<^verbatim>\<open>WRITES_IN_FLIGHT\<close> units, the interface pointer is set, the receive URB is
  allocated with length 0, the minor is registered and nothing is in flight. The size
  of the receive buffer is the non-negative \<^verbatim>\<open>int\<close> that \<^verbatim>\<open>usb_endpoint_maxp\<close>
  returned; otherwise the endpoint sizes and the contents of the buffer are left open.\<close>

definition probed :: "variant \<Rightarrow> system \<Rightarrow> bool" where
  "probed v dev \<longleftrightarrow>
     kref dev = 1 \<and> limit_sem dev = WRITES_IN_FLIGHT v \<and> submitted dev = 0 \<and>
     interface dev \<and> bulk_in_urb dev \<and> bulk_in_size dev < 0x80000000 \<and>
     bulk_in_filled dev = 0 \<and> bulk_in_copied dev = 0 \<and> errors dev = 0 \<and>
     \<not> ongoing_read dev \<and> \<not> disconnected dev \<and>
     \<not> rx_in_flight dev \<and> rx_length dev = 0 \<and> tx_in_flight dev = 0 \<and>
     minor_registered dev \<and> intfdata dev \<and> text_api_file dev = has_text_api dev \<and>
     \<not> freed dev \<and> open_files dev = 0"

subsection \<open>Invariants and an example session\<close>

text \<open>The receive buffer: bytes handed out never exceed bytes delivered; the
  ongoing-receive flag says whether the receive URB is in flight; while it is, the
  buffer is empty; and neither the bytes delivered nor the length of the receive URB
  exceed the size of the buffer, which fits an \<^verbatim>\<open>int\<close>.\<close>

definition rx_inv :: "system \<Rightarrow> bool" where
  "rx_inv dev \<longleftrightarrow>
     bulk_in_copied dev \<le> bulk_in_filled dev \<and>
     ongoing_read dev = rx_in_flight dev \<and>
     (ongoing_read dev \<longrightarrow> bulk_in_filled dev = 0 \<and> bulk_in_copied dev = 0) \<and>
     bulk_in_filled dev \<le> bulk_in_size dev \<and>
     ucast (rx_length dev) \<le> bulk_in_size dev \<and>
     bulk_in_size dev < 0x80000000"

text \<open>Admission: every send in flight holds one unit of the semaphore, and is on the
  anchor.\<close>

definition tx_inv :: "variant \<Rightarrow> system \<Rightarrow> bool" where
  "tx_inv v dev \<longleftrightarrow>
     limit_sem dev + tx_in_flight dev = WRITES_IN_FLIGHT v \<and>
     tx_in_flight dev \<le> submitted dev"

text \<open>A session as \<^verbatim>\<open>usb_rt_probe\<close> leaves it, with 64-byte endpoints, and the two
  kinds of open file.\<close>

definition attached :: "variant \<Rightarrow> system" where
  "attached v =
     \<lparr>interface = True, limit_sem = WRITES_IN_FLIGHT v, submitted = 0,
      bulk_in_urb = True, bulk_in_buffer = replicate 64 0,
      bulk_in_size = 64, bulk_out_size = 64,
      bulk_in_filled = 0, bulk_in_copied = 0, errors = 0, ongoing_read = False,
      kref = 1, disconnected = False, has_text_api = False,
      rx_in_flight = False, rx_length = 0, tx_in_flight = 0,
      minor_registered = True, intfdata = True, text_api_file = False,
      freed = False, open_files = 0\<rparr>"

definition blocking :: file_struct where
  "blocking = \<lparr>f_flags = 0, private_data = True\<rparr>"

definition nonblocking :: file_struct where
  "nonblocking = \<lparr>f_flags = O_NONBLOCK, private_data = True\<rparr>"

text \<open>A sleep outcome that records no new error: a completion, if any, has status 0.\<close>

definition no_error_wait :: "wait_outcome \<Rightarrow> bool" where
  "no_error_wait w = (case w of Wait_done st data \<Rightarrow> st = 0 | _ \<Rightarrow> True)"

text \<open>An environment in which nothing fails and nothing happens.\<close>

definition quiet_read :: read_env where
  "quiet_read = \<lparr>r_lock = 0, r_left = 0, r_waits = [], r_submits = []\<rparr>"

definition quiet_write :: write_env where
  "quiet_write =
     \<lparr>w_signal = False, w_alloc_urb = True, w_alloc_buf = True, w_left = 0, w_submit = 0\<rparr>"

text \<open>Example sessions, each the end of a run from \<open>attached\<close>: with a file open; with
  a receive in flight; with a completed receive of 32 bytes \<open>0xAA\<close>; with a receive that
  ended in a stall.\<close>

definition opened :: "variant \<Rightarrow> system" where
  "opened v = the (run v 4096 [Open 0] (attached v))"

definition listening :: "variant \<Rightarrow> system" where
  "listening v = the (run v 4096 [Open 0, Poll 0 0] (attached v))"

definition received :: "variant \<Rightarrow> system" where
  "received v =
     the (run v 4096 [Open 0, Poll 0 0, Rx_complete 0 (replicate 32 0xAA)] (attached v))"

definition stalled :: "variant \<Rightarrow> system" where
  "stalled v = the (run v 4096 [Open 0, Poll 0 0, Rx_complete (- EPIPE) []] (attached v))"



section \<open>Properties\<close>

subsection \<open>A rule for the read loop\<close>

lemma complete_rx_not_ongoing: "\<not> ongoing_read (usb_complete_rx st d dev)"
  by (simp add: usb_complete_rx_def usb_rt_read_bulk_callback_def Let_def)

lemma usb_rt_read_retry_v1_rule:
  assumes compl: "\<And>dev st data. P dev \<Longrightarrow> W (Wait_done st data) \<Longrightarrow> rx_in_flight dev \<Longrightarrow>
                    length data \<le> unat (rx_length dev) \<Longrightarrow> P (usb_complete_rx st data dev)"
    and step_io: "\<And>dev s r d. P dev \<Longrightarrow> S s \<Longrightarrow> \<not> ongoing_read dev \<Longrightarrow> \<not> errors dev < 0 \<Longrightarrow>
                    usb_rt_do_read_io s count dev = (r, d) \<Longrightarrow> \<not> r < 0 \<Longrightarrow> P d"
    and ex_nb: "\<And>dev. P dev \<Longrightarrow> ongoing_read dev \<Longrightarrow> R (- EAGAIN) [] dev"
    and ex_sig: "\<And>dev. P dev \<Longrightarrow> ongoing_read dev \<Longrightarrow> R (- ERESTARTSYS) [] dev"
    and ex_err: "\<And>dev r. P dev \<Longrightarrow> \<not> ongoing_read dev \<Longrightarrow> errors dev < 0 \<Longrightarrow>
                    r = (if errors dev = - EPIPE then - EPIPE else - EIO) \<Longrightarrow>
                    R r [] (dev\<lparr>errors := 0\<rparr>)"
    and ex_io: "\<And>dev s r d. P dev \<Longrightarrow> S s \<Longrightarrow> \<not> ongoing_read dev \<Longrightarrow> \<not> errors dev < 0 \<Longrightarrow>
                    usb_rt_do_read_io s count dev = (r, d) \<Longrightarrow> r < 0 \<Longrightarrow> R r [] d"
    and ex_copy: "\<And>dev fault data r. P dev \<Longrightarrow> \<not> ongoing_read dev \<Longrightarrow> \<not> errors dev < 0 \<Longrightarrow>
                    bulk_in_filled dev \<noteq> 0 \<Longrightarrow> bulk_in_filled dev \<noteq> bulk_in_copied dev \<Longrightarrow>
                    copy_to_user left (bulk_in_buffer dev) (bulk_in_copied dev)
                              (min (bulk_in_filled dev - bulk_in_copied dev) count) = (fault, data) \<Longrightarrow>
                    r = (if fault \<noteq> 0 then - EFAULT
                       else sint (ucast (min (bulk_in_filled dev - bulk_in_copied dev) count) :: 32 word)) \<Longrightarrow>
                    R r data
                      (dev\<lparr>bulk_in_copied := bulk_in_copied dev +
                              min (bulk_in_filled dev - bulk_in_copied dev) count\<rparr>)"
  shows "P dev \<Longrightarrow> list_all W ws \<Longrightarrow> list_all S submits \<Longrightarrow>
         usb_rt_read_retry_v1 filp count left ws submits dev = Some (rv, data, dev') \<Longrightarrow>
         R rv data dev'"
proof (induction submits arbitrary: dev ws)
  case Nil
  note nr = complete_rx_not_ongoing
  from Nil show ?case
    apply (subst (asm) usb_rt_read_retry_v1.simps)
    apply (auto simp: Let_def wait_event_interruptible_def compl nr
        split: if_splits option.splits list.splits wait_outcome.splits prod.splits
        intro: ex_nb ex_sig ex_err ex_copy)
    done
next
  case (Cons s ss)
  note nr = complete_rx_not_ongoing
  from Cons.prems show ?case
    apply (subst (asm) usb_rt_read_retry_v1.simps)
    apply (auto simp: Let_def wait_event_interruptible_def compl nr
        split: if_splits option.splits list.splits wait_outcome.splits prod.splits
        intro: ex_nb ex_sig ex_err ex_copy
               ex_io ex_io[OF compl _ nr] Cons.IH[rotated 3] step_io step_io[OF compl _ nr])
    done
qed

lemma usb_rt_read_retry_v2_rule:
  assumes compl: "\<And>dev st data. P dev \<Longrightarrow> W (Wait_done st data) \<Longrightarrow> rx_in_flight dev \<Longrightarrow>
                    length data \<le> unat (rx_length dev) \<Longrightarrow> P (usb_complete_rx st data dev)"
    and step_io: "\<And>dev s r d. P dev \<Longrightarrow> S s \<Longrightarrow> \<not> ongoing_read dev \<Longrightarrow> \<not> errors dev < 0 \<Longrightarrow>
                    usb_rt_do_read_io s count dev = (r, d) \<Longrightarrow> \<not> r < 0 \<Longrightarrow> P d"
    and ex_nb: "\<And>dev. P dev \<Longrightarrow> ongoing_read dev \<Longrightarrow> R (- EAGAIN) [] dev"
    and ex_sig: "\<And>dev. P dev \<Longrightarrow> ongoing_read dev \<Longrightarrow> R (- ERESTARTSYS) [] dev"
    and ex_to: "\<And>dev. P dev \<Longrightarrow> ongoing_read dev \<Longrightarrow> R (- ETIMEDOUT) [] dev"
    and ex_err: "\<And>dev r. P dev \<Longrightarrow> \<not> ongoing_read dev \<Longrightarrow> errors dev < 0 \<Longrightarrow>
                    r = (if errors dev = - EPIPE then - EPIPE else - EIO) \<Longrightarrow>
                    R r [] (dev\<lparr>errors := 0\<rparr>)"
    and ex_io: "\<And>dev s r d. P dev \<Longrightarrow> S s \<Longrightarrow> \<not> ongoing_read dev \<Longrightarrow> \<not> errors dev < 0 \<Longrightarrow>
                    usb_rt_do_read_io s count dev = (r, d) \<Longrightarrow> r < 0 \<Longrightarrow> R r [] d"
    and ex_copy: "\<And>dev fault data r. P dev \<Longrightarrow> \<not> ongoing_read dev \<Longrightarrow> \<not> errors dev < 0 \<Longrightarrow>
                    bulk_in_filled dev \<noteq> 0 \<Longrightarrow> bulk_in_filled dev \<noteq> bulk_in_copied dev \<Longrightarrow>
                    copy_to_user left (bulk_in_buffer dev) (bulk_in_copied dev)
                              (min (bulk_in_filled dev - bulk_in_copied dev) count) = (fault, data) \<Longrightarrow>
                    r = (if fault \<noteq> 0 then - EFAULT
                       else sint (ucast (min (bulk_in_filled dev - bulk_in_copied dev) count) :: 32 word)) \<Longrightarrow>
                    R r data
                      (dev\<lparr>bulk_in_copied := bulk_in_copied dev +
                              min (bulk_in_filled dev - bulk_in_copied dev) count\<rparr>)"
  shows "P dev \<Longrightarrow> list_all W ws \<Longrightarrow> list_all S submits \<Longrightarrow>
         usb_rt_read_retry_v2 filp count left ws submits dev = Some (rv, data, dev') \<Longrightarrow>
         R rv data dev'"
proof (induction submits arbitrary: dev ws)
  case Nil
  note nr = complete_rx_not_ongoing
  from Nil show ?case
    apply (subst (asm) usb_rt_read_retry_v2.simps)
    apply (auto simp: Let_def wait_event_interruptible_timeout_def compl nr
        split: if_splits option.splits list.splits wait_outcome.splits prod.splits
        intro: ex_nb ex_sig ex_to ex_err ex_copy)
    done
next
  case (Cons s ss)
  note nr = complete_rx_not_ongoing
  from Cons.prems show ?case
    apply (subst (asm) usb_rt_read_retry_v2.simps)
    apply (auto simp: Let_def wait_event_interruptible_timeout_def compl nr
        split: if_splits option.splits list.splits wait_outcome.splits prod.splits
        intro: ex_nb ex_sig ex_to ex_err ex_copy
               ex_io ex_io[OF compl _ nr] Cons.IH[rotated 3] step_io step_io[OF compl _ nr])
    done
qed


subsection \<open>Frame and invariant lemmas\<close>



























lemma rx_inv_up: "rx_inv (up dev) = rx_inv dev"
  by (simp add: rx_inv_def up_def)









lemma tx_inv_complete_rx: "tx_inv v (usb_complete_rx st data dev) = tx_inv v dev"
  by (simp add: tx_inv_def usb_complete_rx_def usb_rt_read_bulk_callback_def Let_def)

lemma tx_inv_do_read_io: "usb_rt_do_read_io s count dev = (r, d) \<Longrightarrow> tx_inv v d = tx_inv v dev"
  by (auto simp: tx_inv_def usb_rt_do_read_io_def usb_submit_urb_in_def Let_def split: if_splits)

lemma tx_inv_do_read_io_snd: "tx_inv v (snd (usb_rt_do_read_io s count dev)) = tx_inv v dev"
  by (rule tx_inv_do_read_io[OF surjective_pairing])

lemma tx_inv_errors: "tx_inv v (dev\<lparr>errors := e\<rparr>) = tx_inv v dev"
  by (simp add: tx_inv_def)

lemma tx_inv_copied: "tx_inv v (dev\<lparr>bulk_in_copied := c\<rparr>) = tx_inv v dev"
  by (simp add: tx_inv_def)

lemma tx_inv_complete_tx:
  "tx_inv v dev \<Longrightarrow> 0 < tx_in_flight dev \<Longrightarrow> tx_inv v (usb_complete_tx st dev)"
  by (auto simp: tx_inv_def usb_complete_tx_def usb_rt_write_bulk_callback_def up_def Let_def)

lemma tx_in_flight_complete_tx: "tx_in_flight (usb_complete_tx st dev) = tx_in_flight dev - 1"
  by (simp add: usb_complete_tx_def usb_rt_write_bulk_callback_def up_def Let_def)

lemma tx_inv_kill_tx:
  "tx_inv v dev \<Longrightarrow> n \<le> tx_in_flight dev \<Longrightarrow>
   tx_inv v (kill_tx n dev) \<and> tx_in_flight (kill_tx n dev) = tx_in_flight dev - n"
proof (induction n arbitrary: dev)
  case 0
  then show ?case by simp
next
  case (Suc n)
  from Suc.prems have "tx_inv v (usb_complete_tx (- ENOENT) dev)"
    by (simp add: tx_inv_complete_tx)
  moreover from Suc.prems have "n \<le> tx_in_flight (usb_complete_tx (- ENOENT) dev)"
    by (simp add: tx_in_flight_complete_tx)
  ultimately show ?case
    using Suc.IH[of "usb_complete_tx (- ENOENT) dev"] by (simp add: tx_in_flight_complete_tx)
qed

lemma tx_inv_kill_anchored:
  "tx_inv v dev \<Longrightarrow> tx_inv v (usb_kill_anchored_urbs dev)"
  using tx_inv_kill_tx[of v dev "tx_in_flight dev"]
  by (simp add: usb_kill_anchored_urbs_def tx_inv_def)

lemma tx_inv_wait_anchor:
  "tx_inv v dev \<Longrightarrow> tx_inv v (snd (usb_wait_anchor_empty_timeout sts dev))"
  by (induction sts arbitrary: dev) (simp_all add: tx_inv_complete_tx)

lemma tx_inv_kill_urb_in: "tx_inv v (usb_kill_urb_in dev) = tx_inv v dev"
  by (simp add: usb_kill_urb_in_def tx_inv_complete_rx)

lemma tx_inv_draw_down: "tx_inv v dev \<Longrightarrow> tx_inv v (usb_rt_draw_down sts dev)"
  by (simp add: usb_rt_draw_down_def Let_def split_beta tx_inv_kill_urb_in
      tx_inv_kill_anchored tx_inv_wait_anchor)

lemma tx_inv_read_retry_v1:
  assumes "tx_inv v dev"
    and "usb_rt_read_retry_v1 filp count left ws submits dev = Some (rv, data, dev')"
  shows "tx_inv v dev'"
  by (rule usb_rt_read_retry_v1_rule[where P = "tx_inv v" and W = "\<lambda>_. True" and S = "\<lambda>_. True"
        and R = "\<lambda>_ _. tx_inv v", OF _ _ _ _ _ _ _ assms(1) _ _ assms(2)])
     (simp_all add: tx_inv_complete_rx tx_inv_errors tx_inv_copied tx_inv_do_read_io list_all_iff)

lemma tx_inv_read_retry_v2:
  assumes "tx_inv v dev"
    and "usb_rt_read_retry_v2 filp count left ws submits dev = Some (rv, data, dev')"
  shows "tx_inv v dev'"
  by (rule usb_rt_read_retry_v2_rule[where P = "tx_inv v" and W = "\<lambda>_. True" and S = "\<lambda>_. True"
        and R = "\<lambda>_ _. tx_inv v", OF _ _ _ _ _ _ _ _ assms(1) _ _ assms(2)])
     (simp_all add: tx_inv_complete_rx tx_inv_errors tx_inv_copied tx_inv_do_read_io list_all_iff)

lemma tx_inv_read_v1:
  "tx_inv v dev \<Longrightarrow> usb_rt_read_v1 filp count env dev = Some (rv, data, dev') \<Longrightarrow> tx_inv v dev'"
  by (auto simp: usb_rt_read_v1_def split: if_splits elim: tx_inv_read_retry_v1)

lemma tx_inv_read_v2:
  "tx_inv v dev \<Longrightarrow> usb_rt_read_v2 filp count env dev = Some (rv, data, dev') \<Longrightarrow> tx_inv v dev'"
  by (auto simp: usb_rt_read_v2_def split: if_splits elim: tx_inv_read_retry_v2)

lemma tx_inv_poll_v1: "tx_inv v (snd (usb_rt_poll_v1 s dev)) = tx_inv v dev"
  by (simp add: usb_rt_poll_v1_def Let_def tx_inv_do_read_io_snd)

lemma tx_inv_poll_v2: "tx_inv v (snd (usb_rt_poll_v2 l s dev)) = tx_inv v dev"
  by (simp add: usb_rt_poll_v2_def Let_def split_beta tx_inv_do_read_io_snd)

lemma tx_inv_write_v1:
  "tx_inv v dev \<Longrightarrow> usb_rt_write_v1 ps filp count env dev = Some (rv, dev') \<Longrightarrow> tx_inv v dev'"
  by (auto simp: usb_rt_write_v1_def Let_def down_interruptible_def down_trylock_def up_def
      usb_anchor_urb_def usb_unanchor_urb_def usb_submit_urb_out_def tx_inv_def
      split: if_splits option.splits prod.splits)

lemma tx_inv_write_v2:
  "tx_inv v dev \<Longrightarrow> usb_rt_write_v2 filp count env dev = Some (rv, dev') \<Longrightarrow> tx_inv v dev'"
  by (auto simp: usb_rt_write_v2_def Let_def down_interruptible_def down_trylock_def up_def
      usb_anchor_urb_def usb_unanchor_urb_def usb_submit_urb_out_def tx_inv_def
      split: if_splits option.splits prod.splits)

lemma tx_inv_kref_put: "tx_inv v (kref_put dev) = tx_inv v dev"
  by (simp add: tx_inv_def kref_put_def usb_rt_delete_def)

lemma tx_inv_exec: "tx_inv v dev \<Longrightarrow> tx_inv v (exec c dev)"
  by (cases c) (simp_all add: tx_inv_kill_urb_in tx_inv_kill_anchored tx_inv_kref_put,
      simp_all add: tx_inv_def)

lemma tx_inv_fold_exec: "tx_inv v dev \<Longrightarrow> tx_inv v (fold exec cs dev)"
  by (induction cs arbitrary: dev) (simp_all add: tx_inv_exec)

lemma tx_inv_step: "tx_inv v dev \<Longrightarrow> step v ps a dev = Some dev' \<Longrightarrow> tx_inv v dev'"
proof (cases a)
  case (Open x1)
  then show "tx_inv v dev \<Longrightarrow> step v ps a dev = Some dev' \<Longrightarrow> tx_inv v dev'"
    by (auto simp: usb_rt_open_def kref_get_def tx_inv_def split: if_splits)
next
  case Release
  then show "tx_inv v dev \<Longrightarrow> step v ps a dev = Some dev' \<Longrightarrow> tx_inv v dev'"
    by (auto simp: usb_rt_release_def kref_put_def usb_rt_delete_def tx_inv_def split: if_splits)
next
  case (Flush x3)
  then show "tx_inv v dev \<Longrightarrow> step v ps a dev = Some dev' \<Longrightarrow> tx_inv v dev'"
    by (auto simp: usb_rt_flush_def Let_def tx_inv_errors tx_inv_draw_down split: if_splits)
next
  case (Poll x41 x42)
  then show "tx_inv v dev \<Longrightarrow> step v ps a dev = Some dev' \<Longrightarrow> tx_inv v dev'"
    by (auto simp: usb_rt_poll_def tx_inv_poll_v1 tx_inv_poll_v2 split: if_splits variant.splits)
next
  case (Read x51 x52 x53)
  then show "tx_inv v dev \<Longrightarrow> step v ps a dev = Some dev' \<Longrightarrow> tx_inv v dev'"
    by (auto simp: usb_rt_read_def split: if_splits variant.splits elim: tx_inv_read_v1 tx_inv_read_v2)
next
  case (Write x61 x62 x63)
  then show "tx_inv v dev \<Longrightarrow> step v ps a dev = Some dev' \<Longrightarrow> tx_inv v dev'"
    by (auto simp: usb_rt_write_def split: if_splits variant.splits elim: tx_inv_write_v1 tx_inv_write_v2)
next
  case (Rx_complete x71 x72)
  then show "tx_inv v dev \<Longrightarrow> step v ps a dev = Some dev' \<Longrightarrow> tx_inv v dev'"
    by (auto split: if_splits simp: tx_inv_complete_rx)
next
  case (Tx_complete x8)
  then show "tx_inv v dev \<Longrightarrow> step v ps a dev = Some dev' \<Longrightarrow> tx_inv v dev'"
    by (auto split: if_splits simp: tx_inv_complete_tx)
next
  case Disconnect
  then show "tx_inv v dev \<Longrightarrow> step v ps a dev = Some dev' \<Longrightarrow> tx_inv v dev'"
    by (auto split: if_splits variant.splits
        simp: usb_rt_disconnect_def usb_rt_disconnect_v1_def usb_rt_disconnect_v2_def tx_inv_fold_exec)
next
  case (Suspend x10)
  then show "tx_inv v dev \<Longrightarrow> step v ps a dev = Some dev' \<Longrightarrow> tx_inv v dev'"
    by (auto split: if_splits simp: usb_rt_suspend_def tx_inv_draw_down)
next
  case Resume
  then show "tx_inv v dev \<Longrightarrow> step v ps a dev = Some dev' \<Longrightarrow> tx_inv v dev'"
    by (auto split: if_splits simp: usb_rt_resume_def)
next
  case (Pre_reset x12)
  then show "tx_inv v dev \<Longrightarrow> step v ps a dev = Some dev' \<Longrightarrow> tx_inv v dev'"
    by (auto split: if_splits simp: usb_rt_pre_reset_def tx_inv_draw_down)
next
  case Post_reset
  then show "tx_inv v dev \<Longrightarrow> step v ps a dev = Some dev' \<Longrightarrow> tx_inv v dev'"
    by (auto split: if_splits simp: usb_rt_post_reset_def tx_inv_errors)
qed

lemma tx_inv_run: "tx_inv v dev \<Longrightarrow> run v ps ops dev = Some dev' \<Longrightarrow> tx_inv v dev'"
  by (induction ops arbitrary: dev) (auto split: option.splits dest: tx_inv_step)

lemma tx_inv_probed: "probed v dev \<Longrightarrow> tx_inv v dev"
  by (simp add: probed_def tx_inv_def)

subsection \<open>After draw-down\<close>


lemma kill_anchored_idle:
  "tx_in_flight (usb_kill_anchored_urbs dev) = 0 \<and> submitted (usb_kill_anchored_urbs dev) = 0"
proof -
  have "tx_in_flight (kill_tx n d) = tx_in_flight d - n" for n d
    by (induction n arbitrary: d) (simp_all add: tx_in_flight_complete_tx)
  then show ?thesis by (simp add: usb_kill_anchored_urbs_def)
qed

lemma kill_urb_in_frame:
  "tx_in_flight (usb_kill_urb_in dev) = tx_in_flight dev \<and>
   submitted (usb_kill_urb_in dev) = submitted dev \<and> \<not> rx_in_flight (usb_kill_urb_in dev)"
  by (simp add: usb_kill_urb_in_def usb_complete_rx_def usb_rt_read_bulk_callback_def Let_def)



subsection \<open>Receive submission failure, flush\<close>






subsection \<open>Write: admission and truncation\<close>

lemma write_v1_effect:
  assumes "count \<noteq> 0" "0 < limit_sem dev"
    and "usb_rt_write_v1 ps filp count env dev = Some (rv, dev')"
  shows "(rv, limit_sem dev', tx_in_flight dev') =
           (if errors dev < 0
            then (if errors dev = - EPIPE then - EPIPE else - EIO, limit_sem dev, tx_in_flight dev)
            else if \<not> w_alloc_urb env \<or> \<not> w_alloc_buf env
            then (- ENOMEM, limit_sem dev, tx_in_flight dev)
            else if w_left env \<noteq> 0 then (- EFAULT, limit_sem dev, tx_in_flight dev)
            else if \<not> interface dev then (- ENODEV, limit_sem dev, tx_in_flight dev)
            else if w_submit env \<noteq> 0 then (w_submit env, limit_sem dev, tx_in_flight dev)
            else (sint (min count (MAX_TRANSFER ps)), limit_sem dev - 1, tx_in_flight dev + 1))"
  using assms
  by (auto simp: usb_rt_write_v1_def Let_def down_interruptible_def down_trylock_def up_def
      usb_anchor_urb_def usb_unanchor_urb_def usb_submit_urb_out_def
      split: if_splits option.splits prod.splits)

lemma write_v2_effect:
  assumes "count \<noteq> 0" "0 < limit_sem dev"
    and "usb_rt_write_v2 filp count env dev = Some (rv, dev')"
  shows "(rv, limit_sem dev', tx_in_flight dev') =
           (if errors dev < 0
            then (if errors dev = - EPIPE then - EPIPE else - EIO, limit_sem dev, tx_in_flight dev)
            else if w_left env \<noteq> 0 then (- EFAULT, limit_sem dev, tx_in_flight dev)
            else if disconnected dev then (- ENODEV, limit_sem dev, tx_in_flight dev)
            else if w_submit env \<noteq> 0 then (w_submit env, limit_sem dev, tx_in_flight dev)
            else (sint (min count (bulk_out_size dev)), limit_sem dev - 1, tx_in_flight dev + 1))"
  using assms
  by (auto simp: usb_rt_write_v2_def Let_def down_interruptible_def down_trylock_def up_def
      usb_anchor_urb_def usb_unanchor_urb_def usb_submit_urb_out_def
      split: if_splits option.splits prod.splits)

text \<open>Claim C1. The admission slot of a send is released exactly once. The completion
  handler releases one unit whatever the status of the URB; so does the completion of a
  send in flight, which also takes it out of flight. A \<^verbatim>\<open>write\<close> that acquired a unit
  gives it back on each of its error paths (pending error, failed allocation, copy
  fault, torn-down session, failed submission) and puts nothing in flight, and keeps it
  exactly when it put a send in flight. Hence in every state that a session reaches, the
  free units and the sends in flight add up to \<^verbatim>\<open>WRITES_IN_FLIGHT\<close>.\<close>

theorem admission_slot_released_once:
  "limit_sem (usb_rt_write_bulk_callback u dev) = limit_sem dev + 1 \<and>
   (0 < tx_in_flight dev \<longrightarrow>
      limit_sem (usb_complete_tx st dev) = limit_sem dev + 1 \<and>
      tx_in_flight (usb_complete_tx st dev) + 1 = tx_in_flight dev) \<and>
   (count \<noteq> 0 \<longrightarrow> 0 < limit_sem dev \<longrightarrow>
    usb_rt_write_v1 ps filp count env dev = Some (rv, dev') \<longrightarrow>
      (rv, limit_sem dev', tx_in_flight dev') =
           (if errors dev < 0
            then (if errors dev = - EPIPE then - EPIPE else - EIO, limit_sem dev, tx_in_flight dev)
            else if \<not> w_alloc_urb env \<or> \<not> w_alloc_buf env
            then (- ENOMEM, limit_sem dev, tx_in_flight dev)
            else if w_left env \<noteq> 0 then (- EFAULT, limit_sem dev, tx_in_flight dev)
            else if \<not> interface dev then (- ENODEV, limit_sem dev, tx_in_flight dev)
            else if w_submit env \<noteq> 0 then (w_submit env, limit_sem dev, tx_in_flight dev)
            else (sint (min count (MAX_TRANSFER ps)), limit_sem dev - 1, tx_in_flight dev + 1))) \<and>
   (count \<noteq> 0 \<longrightarrow> 0 < limit_sem dev \<longrightarrow>
    usb_rt_write_v2 filp count env dev = Some (rv2, dev2) \<longrightarrow>
      (rv2, limit_sem dev2, tx_in_flight dev2) =
           (if errors dev < 0
            then (if errors dev = - EPIPE then - EPIPE else - EIO, limit_sem dev, tx_in_flight dev)
            else if w_left env \<noteq> 0 then (- EFAULT, limit_sem dev, tx_in_flight dev)
            else if disconnected dev then (- ENODEV, limit_sem dev, tx_in_flight dev)
            else if w_submit env \<noteq> 0 then (w_submit env, limit_sem dev, tx_in_flight dev)
            else (sint (min count (bulk_out_size dev)), limit_sem dev - 1, tx_in_flight dev + 1))) \<and>
   (probed v dev0 \<longrightarrow> run v ps ops dev0 = Some d \<longrightarrow>
      limit_sem d + tx_in_flight d = WRITES_IN_FLIGHT v)"
proof (intro conjI impI)
  show "limit_sem (usb_rt_write_bulk_callback u dev) = limit_sem dev + 1"
    by (simp add: usb_rt_write_bulk_callback_def up_def Let_def)
  show "limit_sem (usb_complete_tx st dev) = limit_sem dev + 1"
    by (simp add: usb_complete_tx_def usb_rt_write_bulk_callback_def up_def Let_def)
  show "tx_in_flight (usb_complete_tx st dev) + 1 = tx_in_flight dev" if "0 < tx_in_flight dev"
    using that by (simp add: tx_in_flight_complete_tx)
  show "limit_sem d + tx_in_flight d = WRITES_IN_FLIGHT v"
    if "probed v dev0" "run v ps ops dev0 = Some d"
    using tx_inv_run[OF tx_inv_probed[OF that(1)] that(2)] by (simp add: tx_inv_def)
qed (erule (2) write_v1_effect write_v2_effect)+


lemma sint_size_t: "(w::64 word) < 0x8000000000000000 \<Longrightarrow> sint w = uint w"
proof -
  assume "w < 0x8000000000000000"
  then have "uint w < 2 ^ 63" by (simp add: word_less_def)
  moreover have "- (2 ^ 63) \<le> uint w"
    by (rule order_trans[of _ 0]) simp_all
  ultimately have "signed_take_bit 63 (uint w) = uint w"
    by (rule signed_take_bit_int_eq_self[rotated])
  then show ?thesis by (simp add: sint_uint)
qed

lemma sint_ucast_size_t: "(w::64 word) < 0x80000000 \<Longrightarrow> sint (ucast w :: 32 word) = uint w"
proof -
  assume "w < 0x80000000"
  then have "uint w < 2 ^ 31" by (simp add: word_less_def)
  moreover have "- (2 ^ 31) \<le> uint w"
    by (rule order_trans[of _ 0]) simp_all
  ultimately have "signed_take_bit 31 (uint w) = uint w"
    by (rule signed_take_bit_int_eq_self[rotated])
  then show ?thesis by (simp add: signed_ucast_eq)
qed

lemma min_less_count: "(c::64 word) < b \<Longrightarrow> min a c < b"
  by (auto simp: min_def)

lemma min_less_count2: "(c::64 word) < b \<Longrightarrow> min c a < b"
  by (auto simp: min_def)











theorem admission_slot_released_once_witness:
  "limit_sem (the (run V1 4096 [Open 0, Write blocking 100 quiet_write] (attached V1))) +
   tx_in_flight (the (run V1 4096 [Open 0, Write blocking 100 quiet_write] (attached V1))) = 8 \<and>
   limit_sem (usb_complete_tx (- ENOENT)
     (the (run V1 4096 [Open 0, Write blocking 100 quiet_write] (attached V1)))) = 8 \<and>
   map_option (\<lambda>r. (fst r, limit_sem (snd r)))
     (usb_rt_write_v1 4096 blocking 100 (quiet_write\<lparr>w_left := 1\<rparr>)
        (the (run V1 4096 [Open 0, Write blocking 100 quiet_write] (attached V1)))) =
     Some (- EFAULT, 7) \<and>
   map_option (\<lambda>r. (fst r, limit_sem (snd r)))
     (usb_rt_write_v2 blocking 100 (quiet_write\<lparr>w_left := 1\<rparr>)
        (the (run V1 4096 [Open 0, Write blocking 100 quiet_write] (attached V1)))) =
     Some (- EFAULT, 7)"
proof -
  let ?ops = "[Open 0, Write blocking 100 quiet_write]"
  let ?D = "the (run V1 4096 ?ops (attached V1))"
  let ?env = "quiet_write\<lparr>w_left := 1\<rparr>"
  let ?w1 = "usb_rt_write_v1 4096 blocking 100 ?env ?D"
  let ?w2 = "usb_rt_write_v2 blocking 100 ?env ?D"
  have p: "probed V1 (attached V1)" by code_simp
  have r: "run V1 4096 ?ops (attached V1) = Some ?D" by code_simp
  have t: "0 < tx_in_flight ?D" by code_simp
  have l: "0 < limit_sem ?D" "limit_sem ?D = 7" by code_simp+
  have c: "(100::size_t) \<noteq> 0" by simp
  have e: "\<not> errors ?D < 0" "w_alloc_urb ?env" "w_alloc_buf ?env" "w_left ?env \<noteq> 0" by code_simp+
  have n1: "?w1 \<noteq> None" by code_simp
  have n2: "?w2 \<noteq> None" by code_simp
  have w1: "?w1 = Some (fst (the ?w1), snd (the ?w1))"
    using option.collapse[OF n1] by (simp only: prod.collapse)
  have w2: "?w2 = Some (fst (the ?w2), snd (the ?w2))"
    using option.collapse[OF n2] by (simp only: prod.collapse)
  note T = admission_slot_released_once[where dev = ?D and st = "- ENOENT" and count = 100
      and ps = 4096 and filp = blocking and env = ?env and rv = "fst (the ?w1)"
      and dev' = "snd (the ?w1)" and ?rv2.0 = "fst (the ?w2)" and ?dev2.0 = "snd (the ?w2)"
      and v = V1 and ?dev0.0 = "attached V1" and ops = ?ops and d = ?D]
  from T have a: "limit_sem ?D + tx_in_flight ?D = WRITES_IN_FLIGHT V1"
    using p r by blast
  from T have b: "limit_sem (usb_complete_tx (- ENOENT) ?D) = limit_sem ?D + 1"
    using t by blast
  from T have "(fst (the ?w1), limit_sem (snd (the ?w1)), tx_in_flight (snd (the ?w1))) =
           (if errors ?D < 0
            then (if errors ?D = - EPIPE then - EPIPE else - EIO, limit_sem ?D, tx_in_flight ?D)
            else if \<not> w_alloc_urb ?env \<or> \<not> w_alloc_buf ?env
            then (- ENOMEM, limit_sem ?D, tx_in_flight ?D)
            else if w_left ?env \<noteq> 0 then (- EFAULT, limit_sem ?D, tx_in_flight ?D)
            else if \<not> interface ?D then (- ENODEV, limit_sem ?D, tx_in_flight ?D)
            else if w_submit ?env \<noteq> 0 then (w_submit ?env, limit_sem ?D, tx_in_flight ?D)
            else (sint (min 100 (MAX_TRANSFER 4096)), limit_sem ?D - 1, tx_in_flight ?D + 1))"
    using c l(1) w1 by blast
  then have c1: "fst (the ?w1) = - EFAULT \<and> limit_sem (snd (the ?w1)) = 7"
    by (simp only: e l(2) if_True if_False simp_thms prod.inject)
  from T have "(fst (the ?w2), limit_sem (snd (the ?w2)), tx_in_flight (snd (the ?w2))) =
           (if errors ?D < 0
            then (if errors ?D = - EPIPE then - EPIPE else - EIO, limit_sem ?D, tx_in_flight ?D)
            else if w_left ?env \<noteq> 0 then (- EFAULT, limit_sem ?D, tx_in_flight ?D)
            else if disconnected ?D then (- ENODEV, limit_sem ?D, tx_in_flight ?D)
            else if w_submit ?env \<noteq> 0 then (w_submit ?env, limit_sem ?D, tx_in_flight ?D)
            else (sint (min 100 (bulk_out_size ?D)), limit_sem ?D - 1, tx_in_flight ?D + 1))"
    using c l(1) w2 by blast
  then have c2: "fst (the ?w2) = - EFAULT \<and> limit_sem (snd (the ?w2)) = 7"
    by (simp only: e l(2) if_True if_False simp_thms prod.inject)
  have m1: "map_option (\<lambda>r. (fst r, limit_sem (snd r))) ?w1 = Some (- EFAULT, 7)"
    by (subst w1) (simp only: option.map fst_conv snd_conv c1)
  have m2: "map_option (\<lambda>r. (fst r, limit_sem (snd r))) ?w2 = Some (- EFAULT, 7)"
    by (subst w2) (simp only: option.map fst_conv snd_conv c2)
  from a b l(2) m1 m2 show ?thesis
    by (simp only: WRITES_IN_FLIGHT_def variant.case) simp
qed

subsection \<open>Read: pending errors, copy faults\<close>

lemma read_retry_v1_available:
  assumes "\<not> ongoing_read dev" "\<not> errors dev < 0" "bulk_in_filled dev \<noteq> 0"
    "bulk_in_filled dev - bulk_in_copied dev \<noteq> 0"
  shows "usb_rt_read_retry_v1 filp count left ws submits dev =
           (let chunk = min (bulk_in_filled dev - bulk_in_copied dev) count
            in Some (if left \<noteq> 0 then - EFAULT else sint (ucast chunk :: 32 word),
                     take (unat chunk - unat left) (take (unat chunk) (drop (unat (bulk_in_copied dev)) (bulk_in_buffer dev))),
                     dev\<lparr>bulk_in_copied := bulk_in_copied dev + chunk\<rparr>))"
  using assms
  by (subst usb_rt_read_retry_v1.simps) (simp add: Let_def copy_to_user_def)

lemma read_retry_v2_available:
  assumes "\<not> ongoing_read dev" "\<not> errors dev < 0" "bulk_in_filled dev \<noteq> 0"
    "bulk_in_filled dev - bulk_in_copied dev \<noteq> 0"
  shows "usb_rt_read_retry_v2 filp count left ws submits dev =
           (let chunk = min (bulk_in_filled dev - bulk_in_copied dev) count
            in Some (if left \<noteq> 0 then - EFAULT else sint (ucast chunk :: 32 word),
                     take (unat chunk - unat left) (take (unat chunk) (drop (unat (bulk_in_copied dev)) (bulk_in_buffer dev))),
                     dev\<lparr>bulk_in_copied := bulk_in_copied dev + chunk\<rparr>))"
  using assms
  by (subst usb_rt_read_retry_v2.simps) (simp add: Let_def copy_to_user_def)

lemma read_available:
  assumes "bulk_in_urb dev" "count \<noteq> 0" "\<not> r_lock env < 0" "\<not> torn_down v dev"
    "\<not> ongoing_read dev" "\<not> errors dev < 0" "bulk_in_filled dev \<noteq> 0"
    "bulk_in_filled dev - bulk_in_copied dev \<noteq> 0"
  shows "usb_rt_read v filp count env dev =
           (let chunk = min (bulk_in_filled dev - bulk_in_copied dev) count
            in Some (if r_left env \<noteq> 0 then - EFAULT else sint (ucast chunk :: 32 word),
                     take (unat chunk - unat (r_left env))
                       (take (unat chunk) (drop (unat (bulk_in_copied dev)) (bulk_in_buffer dev))),
                     dev\<lparr>bulk_in_copied := bulk_in_copied dev + chunk\<rparr>))"
  using assms
  by (cases v)
     (simp_all add: usb_rt_read_def usb_rt_read_v1_def usb_rt_read_v2_def torn_down_def
       read_retry_v1_available read_retry_v2_available)

lemma read_pending_error:
  assumes "bulk_in_urb dev" "count \<noteq> 0" "\<not> r_lock env < 0" "\<not> torn_down v dev"
    "\<not> ongoing_read dev" "errors dev < 0"
  shows "usb_rt_read v filp count env dev =
           Some (if errors dev = - EPIPE then - EPIPE else - EIO, [], dev\<lparr>errors := 0\<rparr>)"
  using assms
  by (cases v)
     (simp_all add: usb_rt_read_def usb_rt_read_v1_def usb_rt_read_v2_def torn_down_def
       usb_rt_read_retry_v1.simps[of _ _ _ _ _ dev] usb_rt_read_retry_v2.simps[of _ _ _ _ _ dev])


lemma word_sub_advance:
  "(c::64 word) < f \<Longrightarrow> unat (c + min (f - c) n) = unat c + unat (min (f - c) n)"
  by (simp add: min_def) unat_arith

lemma word_lt_sub_nonzero: "(c::64 word) < f \<Longrightarrow> f - c \<noteq> 0 \<and> f \<noteq> 0"
  by unat_arith

text \<open>Claim C9. When \<^verbatim>\<open>read\<close> finds unread bytes and \<^verbatim>\<open>copy_to_user\<close> faults, it
  returns \<^verbatim>\<open>-EFAULT\<close> and still advances \<open>copied\<close> by the whole chunk
  \<open>min (filled - copied) count\<close>: a request for at least the unread bytes empties the
  buffer, and otherwise a retry delivers the buffer from offset \<open>copied + chunk\<close> on, so
  the bytes of the failed call are never delivered.\<close>

theorem read_fault_consumes_chunk:
  assumes "bulk_in_urb dev" "count \<noteq> 0" "\<not> r_lock env < 0" "\<not> torn_down v dev"
    and "\<not> ongoing_read dev" "\<not> errors dev < 0"
    and "bulk_in_copied dev < bulk_in_filled dev"
    and "r_left env \<noteq> 0"
    and "chunk = min (bulk_in_filled dev - bulk_in_copied dev) count"
    and "dev1 = dev\<lparr>bulk_in_copied := bulk_in_copied dev + chunk\<rparr>"
  shows "(\<exists>data. usb_rt_read v filp count env dev = Some (- EFAULT, data, dev1)) \<and>
         unat (bulk_in_copied dev1) = unat (bulk_in_copied dev) + unat chunk \<and>
         (bulk_in_filled dev - bulk_in_copied dev \<le> count \<longrightarrow>
            bulk_in_copied dev1 = bulk_in_filled dev1) \<and>
         (bulk_in_copied dev1 < bulk_in_filled dev1 \<longrightarrow> count2 \<noteq> 0 \<longrightarrow> count2 < 0x80000000 \<longrightarrow>
          \<not> r_lock env2 < 0 \<longrightarrow> r_left env2 = 0 \<longrightarrow>
            usb_rt_read v filp2 count2 env2 dev1 =
              (let chunk2 = min (bulk_in_filled dev1 - bulk_in_copied dev1) count2
               in Some (uint chunk2,
                        take (unat chunk2)
                          (drop (unat (bulk_in_copied dev) + unat chunk) (bulk_in_buffer dev)),
                        dev1\<lparr>bulk_in_copied := bulk_in_copied dev1 + chunk2\<rparr>)))"
proof -
  note nz = word_lt_sub_nonzero[OF assms(7)]
  have adv: "unat (bulk_in_copied dev1) = unat (bulk_in_copied dev) + unat chunk"
    using word_sub_advance[OF assms(7), of count] by (simp add: assms(9,10))
  have first: "\<exists>data. usb_rt_read v filp count env dev = Some (- EFAULT, data, dev1)"
    using read_available[OF assms(1-6) nz[THEN conjunct2] nz[THEN conjunct1], of filp] assms(8)
    by (simp add: Let_def assms(9,10))
  have all: "bulk_in_copied dev1 = bulk_in_filled dev1"
    if "bulk_in_filled dev - bulk_in_copied dev \<le> count"
    using that by (simp add: assms(9,10) min_def)
  have second: "usb_rt_read v filp2 count2 env2 dev1 =
              (let chunk2 = min (bulk_in_filled dev1 - bulk_in_copied dev1) count2
               in Some (uint chunk2,
                        take (unat chunk2)
                          (drop (unat (bulk_in_copied dev) + unat chunk) (bulk_in_buffer dev)),
                        dev1\<lparr>bulk_in_copied := bulk_in_copied dev1 + chunk2\<rparr>))"
    if lt: "bulk_in_copied dev1 < bulk_in_filled dev1" and c2: "count2 \<noteq> 0" "count2 < 0x80000000"
      and e2: "\<not> r_lock env2 < 0" "r_left env2 = 0"
  proof -
    note nz1 = word_lt_sub_nonzero[OF lt]
    have pre: "bulk_in_urb dev1" "\<not> torn_down v dev1" "\<not> ongoing_read dev1" "\<not> errors dev1 < 0"
      using assms(1,4,5,6) by (simp_all add: assms(10) torn_down_def split: variant.splits)
    have s: "sint (ucast (min a count2) :: 32 word) = uint (min a count2)" for a
      by (rule sint_ucast_size_t[OF min_less_count[OF c2(2)]])
    have b: "bulk_in_buffer dev1 = bulk_in_buffer dev" by (simp add: assms(10))
    show ?thesis
      using read_available[OF pre(1) c2(1) e2(1) pre(2,3,4) nz1[THEN conjunct2] nz1[THEN conjunct1], of filp2]
      by (simp add: Let_def e2(2) s adv b)
  qed
  from first adv all second show ?thesis by blast
qed


lemma write_pending_error:
  assumes "count \<noteq> 0" "0 < limit_sem dev" "errors dev < 0"
  shows "usb_rt_write v ps filp count env dev =
           Some (if errors dev = - EPIPE then - EPIPE else - EIO, dev\<lparr>errors := 0\<rparr>)"
  using assms
  by (cases v)
     (simp_all add: usb_rt_write_def usb_rt_write_v1_def usb_rt_write_v2_def Let_def
       down_interruptible_def down_trylock_def up_def)

lemma uint_not_error: "uint (w::64 word) \<noteq> - EPIPE \<and> uint w \<noteq> - EIO"
proof -
  have "0 \<le> uint w" by simp
  then show ?thesis by arith
qed

lemma write_clear_slot:
  assumes "errors dev = 0" "w_submit env = 0" "count < 0x8000000000000000"
    and "usb_rt_write v ps filp count env dev = Some (rv, dev')"
  shows "rv \<noteq> - EPIPE \<and> rv \<noteq> - EIO \<and> errors dev' = 0"
proof -
  have nn: "sint (min count m) \<noteq> - EPIPE \<and> sint (min count m) \<noteq> - EIO" for m
    by (simp only: sint_size_t[OF min_less_count2[OF assms(3)]]) (rule uint_not_error)
  show ?thesis
    using assms(1,2,4) nn
    by (cases v)
       (auto simp: usb_rt_write_def usb_rt_write_v1_def usb_rt_write_v2_def Let_def
         down_interruptible_def down_trylock_def up_def
         usb_anchor_urb_def usb_unanchor_urb_def usb_submit_urb_out_def
         split: if_splits option.splits prod.splits)
qed

lemma errors_complete_rx_ok: "errors (usb_complete_rx 0 data dev) = errors dev"
  by (simp add: usb_complete_rx_def usb_rt_read_bulk_callback_def Let_def)

lemma errors_do_read_io: "usb_rt_do_read_io s count dev = (r, d) \<Longrightarrow> errors d = errors dev"
  by (auto simp: usb_rt_do_read_io_def usb_submit_urb_in_def Let_def split: if_splits)

lemma do_read_io_ok: "usb_rt_do_read_io 0 count dev = (r, d) \<Longrightarrow> r = 0"
  by (auto simp: usb_rt_do_read_io_def usb_submit_urb_in_def Let_def split: if_splits)

lemma chunk_result:
  assumes "(count::64 word) < 0x80000000"
  shows "sint (ucast (min a count) :: 32 word) = uint (min a count)"
  by (rule sint_ucast_size_t[OF min_less_count[OF assms]])

lemma read_retry_v1_clear_slot:
  assumes "errors dev = 0" "count < 0x80000000"
    and "list_all no_error_wait ws" "list_all (\<lambda>s. s = 0) submits"
    and "usb_rt_read_retry_v1 filp count left ws submits dev = Some (rv, data, dev')"
  shows "rv \<noteq> - EPIPE \<and> rv \<noteq> - EIO \<and> errors dev' = 0"
proof (rule usb_rt_read_retry_v1_rule[where P = "\<lambda>d. errors d = 0" and W = no_error_wait
      and S = "\<lambda>s. s = 0" and R = "\<lambda>r _ d. r \<noteq> - EPIPE \<and> r \<noteq> - EIO \<and> errors d = 0",
      OF _ _ _ _ _ _ _ assms(1) assms(3) assms(4) assms(5)])
  fix d fault dat r
  assume "errors d = 0"
    and "r = (if fault \<noteq> 0 then - EFAULT
              else sint (ucast (min (bulk_in_filled d - bulk_in_copied d) count) :: 32 word))"
  then show "r \<noteq> - EPIPE \<and> r \<noteq> - EIO \<and>
       errors (d\<lparr>bulk_in_copied := bulk_in_copied d + min (bulk_in_filled d - bulk_in_copied d) count\<rparr>) = 0"
    using uint_not_error[of "min (bulk_in_filled d - bulk_in_copied d) count"]
    by (simp add: chunk_result[OF assms(2)])
qed (auto simp: no_error_wait_def errors_complete_rx_ok dest: errors_do_read_io do_read_io_ok)

lemma read_retry_v2_clear_slot:
  assumes "errors dev = 0" "count < 0x80000000"
    and "list_all no_error_wait ws" "list_all (\<lambda>s. s = 0) submits"
    and "usb_rt_read_retry_v2 filp count left ws submits dev = Some (rv, data, dev')"
  shows "rv \<noteq> - EPIPE \<and> rv \<noteq> - EIO \<and> errors dev' = 0"
proof (rule usb_rt_read_retry_v2_rule[where P = "\<lambda>d. errors d = 0" and W = no_error_wait
      and S = "\<lambda>s. s = 0" and R = "\<lambda>r _ d. r \<noteq> - EPIPE \<and> r \<noteq> - EIO \<and> errors d = 0",
      OF _ _ _ _ _ _ _ _ assms(1) assms(3) assms(4) assms(5)])
  fix d fault dat r
  assume "errors d = 0"
    and "r = (if fault \<noteq> 0 then - EFAULT
              else sint (ucast (min (bulk_in_filled d - bulk_in_copied d) count) :: 32 word))"
  then show "r \<noteq> - EPIPE \<and> r \<noteq> - EIO \<and>
       errors (d\<lparr>bulk_in_copied := bulk_in_copied d + min (bulk_in_filled d - bulk_in_copied d) count\<rparr>) = 0"
    using uint_not_error[of "min (bulk_in_filled d - bulk_in_copied d) count"]
    by (simp add: chunk_result[OF assms(2)])
qed (auto simp: no_error_wait_def errors_complete_rx_ok dest: errors_do_read_io do_read_io_ok)

lemma read_clear_slot:
  assumes "errors dev = 0" "count < 0x80000000" "r_lock env = 0 \<or> r_lock env = - EINTR"
    and "list_all no_error_wait (r_waits env)" "list_all (\<lambda>s. s = 0) (r_submits env)"
    and "usb_rt_read v filp count env dev = Some (rv, data, dev')"
  shows "rv \<noteq> - EPIPE \<and> rv \<noteq> - EIO \<and> errors dev' = 0"
  using assms(1,3,6) read_retry_v1_clear_slot[OF assms(1,2,4,5)] read_retry_v2_clear_slot[OF assms(1,2,4,5)]
  by (cases v) (auto simp: usb_rt_read_def usb_rt_read_v1_def usb_rt_read_v2_def split: if_splits)

text \<open>Claim C3. A \<^verbatim>\<open>read\<close> that reaches the error check (no receive outstanding) and
  a \<^verbatim>\<open>write\<close> that acquired a unit, finding a negative code in the error slot, return
  \<^verbatim>\<open>-EPIPE\<close> if the code is \<^verbatim>\<open>-EPIPE\<close> and \<^verbatim>\<open>-EIO\<close> otherwise, and leave the
  state unchanged but for the slot, which is cleared. From a state with a clear slot, such
  as the one they leave, a \<^verbatim>\<open>read\<close> or \<^verbatim>\<open>write\<close> during which no completion and no
  submission fails returns neither of the two codes and leaves the slot clear (for a
  count within the range of the result type: below \<open>2^31\<close> for \<^verbatim>\<open>read\<close>, whose
  result passes through an \<^verbatim>\<open>int\<close>, and below \<open>2^63\<close> for \<^verbatim>\<open>write\<close>).\<close>

theorem error_reported_once:
  "(bulk_in_urb dev \<longrightarrow> count \<noteq> 0 \<longrightarrow> \<not> r_lock env < 0 \<longrightarrow> \<not> torn_down v dev \<longrightarrow>
    \<not> ongoing_read dev \<longrightarrow> errors dev < 0 \<longrightarrow>
      usb_rt_read v filp count env dev =
        Some (if errors dev = - EPIPE then - EPIPE else - EIO, [], dev\<lparr>errors := 0\<rparr>)) \<and>
   (count \<noteq> 0 \<longrightarrow> 0 < limit_sem dev \<longrightarrow> errors dev < 0 \<longrightarrow>
      usb_rt_write v ps filp count wenv dev =
        Some (if errors dev = - EPIPE then - EPIPE else - EIO, dev\<lparr>errors := 0\<rparr>)) \<and>
   (errors d = 0 \<longrightarrow> count < 0x80000000 \<longrightarrow> r_lock env = 0 \<or> r_lock env = - EINTR \<longrightarrow>
    list_all no_error_wait (r_waits env) \<longrightarrow> list_all (\<lambda>s. s = 0) (r_submits env) \<longrightarrow>
    usb_rt_read v filp count env d = Some (rv, data, d') \<longrightarrow>
      rv \<noteq> - EPIPE \<and> rv \<noteq> - EIO \<and> errors d' = 0) \<and>
   (errors d = 0 \<longrightarrow> count < 0x8000000000000000 \<longrightarrow> w_submit wenv = 0 \<longrightarrow>
    usb_rt_write v ps filp count wenv d = Some (rv2, d2) \<longrightarrow>
      rv2 \<noteq> - EPIPE \<and> rv2 \<noteq> - EIO \<and> errors d2 = 0)"
  using read_pending_error[of dev count env v filp] write_pending_error[of count dev v ps filp wenv]
    read_clear_slot[of d count env v filp rv data d'] write_clear_slot[of d wenv count v ps filp rv2 d2]
  by blast

subsection \<open>Read: an outstanding receive\<close>

lemma complete_rx_frame:
  "bulk_in_urb (usb_complete_rx st data dev) = bulk_in_urb dev \<and>
   interface (usb_complete_rx st data dev) = interface dev \<and>
   disconnected (usb_complete_rx st data dev) = disconnected dev"
  by (simp add: usb_complete_rx_def usb_rt_read_bulk_callback_def Let_def)

lemma read_retry_v1_after_completion:
  assumes "ongoing_read dev" "f_flags filp AND O_NONBLOCK = 0"
    and "rx_in_flight dev" "length data \<le> unat (rx_length dev)"
  shows "usb_rt_read_retry_v1 filp count left (Wait_done st data # ws) submits dev =
         usb_rt_read_retry_v1 filp count left ws submits (usb_complete_rx st data dev)"
  using assms
  by (subst usb_rt_read_retry_v1.simps, subst (2) usb_rt_read_retry_v1.simps)
     (simp add: wait_event_interruptible_def complete_rx_not_ongoing)

lemma read_retry_v2_after_completion:
  assumes "ongoing_read dev" "f_flags filp AND O_NONBLOCK = 0"
    and "rx_in_flight dev" "length data \<le> unat (rx_length dev)"
  shows "usb_rt_read_retry_v2 filp count left (Wait_done st data # ws) submits dev =
         usb_rt_read_retry_v2 filp count left ws submits (usb_complete_rx st data dev)"
  using assms
  by (subst usb_rt_read_retry_v2.simps, subst (2) usb_rt_read_retry_v2.simps)
     (simp add: wait_event_interruptible_timeout_def complete_rx_not_ongoing)

lemma read_retry_v1_ongoing:
  assumes "ongoing_read dev"
  shows "f_flags filp AND O_NONBLOCK \<noteq> 0 \<Longrightarrow>
           usb_rt_read_retry_v1 filp count left ws submits dev = Some (- EAGAIN, [], dev)"
    and "f_flags filp AND O_NONBLOCK = 0 \<Longrightarrow>
           usb_rt_read_retry_v1 filp count left [] submits dev = None"
    and "f_flags filp AND O_NONBLOCK = 0 \<Longrightarrow>
           usb_rt_read_retry_v1 filp count left (Wait_signal # ws) submits dev =
             Some (- ERESTARTSYS, [], dev)"
    and "f_flags filp AND O_NONBLOCK = 0 \<Longrightarrow>
           usb_rt_read_retry_v1 filp count left (Wait_timeout # ws) submits dev = None"
  using assms
  by (simp_all add: usb_rt_read_retry_v1.simps[of _ _ _ _ _ dev] wait_event_interruptible_def)

lemma read_retry_v2_ongoing:
  assumes "ongoing_read dev"
  shows "f_flags filp AND O_NONBLOCK \<noteq> 0 \<Longrightarrow>
           usb_rt_read_retry_v2 filp count left ws submits dev = Some (- EAGAIN, [], dev)"
    and "f_flags filp AND O_NONBLOCK = 0 \<Longrightarrow>
           usb_rt_read_retry_v2 filp count left [] submits dev = None"
    and "f_flags filp AND O_NONBLOCK = 0 \<Longrightarrow>
           usb_rt_read_retry_v2 filp count left (Wait_signal # ws) submits dev =
             Some (- ERESTARTSYS, [], dev)"
    and "f_flags filp AND O_NONBLOCK = 0 \<Longrightarrow>
           usb_rt_read_retry_v2 filp count left (Wait_timeout # ws) submits dev =
             Some (- ETIMEDOUT, [], dev)"
  using assms
  by (simp_all add: usb_rt_read_retry_v2.simps[of _ _ _ _ _ dev]
      wait_event_interruptible_timeout_def)

text \<open>Claim C5. When \<^verbatim>\<open>read\<close> reaches its check with a receive outstanding: a
  non-blocking call returns \<^verbatim>\<open>-EAGAIN\<close> whatever the environment and changes nothing;
  a blocking call does not return while nothing happens, returns \<^verbatim>\<open>-ERESTARTSYS\<close> on
  a signal, and on the completion of the receive goes on exactly as a call entered after
  that completion; on expiry of the timeout the second copy returns
  \<^verbatim>\<open>-ETIMEDOUT\<close>, and the first copy, whose wait has no timeout, stays suspended.\<close>

theorem read_while_receive_outstanding:
  assumes "bulk_in_urb dev" "count \<noteq> 0" "\<not> r_lock env < 0" "\<not> torn_down v dev"
    and "ongoing_read dev"
  shows "(f_flags filp AND O_NONBLOCK \<noteq> 0 \<longrightarrow>
            usb_rt_read v filp count env dev = Some (- EAGAIN, [], dev)) \<and>
         (f_flags filp AND O_NONBLOCK = 0 \<longrightarrow>
            (r_waits env = [] \<longrightarrow> usb_rt_read v filp count env dev = None) \<and>
            (\<forall>ws. r_waits env = Wait_signal # ws \<longrightarrow>
                usb_rt_read v filp count env dev = Some (- ERESTARTSYS, [], dev)) \<and>
            (\<forall>st data ws. r_waits env = Wait_done st data # ws \<longrightarrow>
                rx_in_flight dev \<longrightarrow> length data \<le> unat (rx_length dev) \<longrightarrow>
                usb_rt_read v filp count env dev =
                usb_rt_read v filp count (env\<lparr>r_waits := ws\<rparr>) (usb_complete_rx st data dev)) \<and>
            (\<forall>ws. r_waits env = Wait_timeout # ws \<longrightarrow>
                usb_rt_read v filp count env dev =
                (case v of V1 \<Rightarrow> None | V2 \<Rightarrow> Some (- ETIMEDOUT, [], dev))))"
proof (cases v)
  case V1
  have top: "usb_rt_read V1 filp count e d =
             usb_rt_read_retry_v1 filp count (r_left e) (r_waits e) (r_submits e) d"
    if "bulk_in_urb d" "interface d" "\<not> r_lock e < 0" for e d
    using that assms(2) by (simp add: usb_rt_read_def usb_rt_read_v1_def)
  have i: "interface dev" using assms(4) by (simp add: V1 torn_down_def)
  show ?thesis
    using assms(3)
    by (simp add: V1 top[OF assms(1) i assms(3)] top complete_rx_frame assms(1) i
        read_retry_v1_after_completion[OF assms(5)] read_retry_v1_ongoing[OF assms(5)])
next
  case V2
  have top: "usb_rt_read V2 filp count e d =
             usb_rt_read_retry_v2 filp count (r_left e) (r_waits e) (r_submits e) d"
    if "bulk_in_urb d" "\<not> disconnected d" "\<not> r_lock e < 0" for e d
    using that assms(2) by (simp add: usb_rt_read_def usb_rt_read_v2_def)
  have i: "\<not> disconnected dev" using assms(4) by (simp add: V2 torn_down_def)
  show ?thesis
    using assms(3)
    by (simp add: V2 top[OF assms(1) i assms(3)] top complete_rx_frame assms(1) i
        read_retry_v2_after_completion[OF assms(5)] read_retry_v2_ongoing[OF assms(5)])
qed

subsection \<open>Read: the receive buffer\<close>








theorem error_reported_once_witness:
  "usb_rt_read V1 blocking 32 quiet_read (stalled V1) =
     Some (- EPIPE, [], (stalled V1)\<lparr>errors := 0\<rparr>) \<and>
   fst (the (usb_rt_read V1 blocking 32
               (quiet_read\<lparr>r_waits := [Wait_done 0 (replicate 32 0xAA)], r_submits := [0]\<rparr>)
               ((stalled V1)\<lparr>errors := 0\<rparr>))) \<noteq> - EPIPE \<and>
   usb_rt_write V2 4096 blocking 100 quiet_write (stalled V2) =
     Some (- EPIPE, (stalled V2)\<lparr>errors := 0\<rparr>) \<and>
   fst (the (usb_rt_write V2 4096 blocking 100 quiet_write ((stalled V2)\<lparr>errors := 0\<rparr>))) \<noteq> - EPIPE"
proof -
  let ?env = "quiet_read\<lparr>r_waits := [Wait_done 0 (replicate 32 0xAA)], r_submits := [0]\<rparr>"
  let ?d1 = "(stalled V1)\<lparr>errors := 0\<rparr>"
  let ?d2 = "(stalled V2)\<lparr>errors := 0\<rparr>"
  let ?R = "usb_rt_read V1 blocking 32 ?env ?d1"
  let ?W = "usb_rt_write V2 4096 blocking 100 quiet_write ?d2"
  have h1: "bulk_in_urb (stalled V1)" "(32::size_t) \<noteq> 0" "\<not> r_lock quiet_read < 0"
    "\<not> torn_down V1 (stalled V1)" "\<not> ongoing_read (stalled V1)" "errors (stalled V1) < 0"
    by code_simp+
  have e1: "errors (stalled V1) = - EPIPE" "errors (stalled V2) = - EPIPE" by code_simp+
  have h2: "(100::size_t) \<noteq> 0" "0 < limit_sem (stalled V2)" "errors (stalled V2) < 0"
    by code_simp+
  have h3: "errors ?d1 = 0" "(32::size_t) < 0x80000000" "r_lock ?env = 0 \<or> r_lock ?env = - EINTR"
    "list_all no_error_wait (r_waits ?env)" "list_all (\<lambda>s. s = 0) (r_submits ?env)"
    by code_simp+
  have h4: "errors ?d2 = 0" "(100::size_t) < 0x8000000000000000" "w_submit quiet_write = 0"
    by code_simp+
  have nR: "?R \<noteq> None" and nW: "?W \<noteq> None" by code_simp+
  have rd: "?R = Some (fst (the ?R), fst (snd (the ?R)), snd (snd (the ?R)))"
    using option.collapse[OF nR] by (simp only: prod.collapse)
  have wr: "?W = Some (fst (the ?W), snd (the ?W))"
    using option.collapse[OF nW] by (simp only: prod.collapse)
  have a: "usb_rt_read V1 blocking 32 quiet_read (stalled V1) = Some (- EPIPE, [], ?d1)"
    using error_reported_once[where dev = "stalled V1" and count = 32 and env = quiet_read
        and v = V1 and filp = blocking, THEN conjunct1, rule_format, OF h1]
    by (simp add: e1)
  have b: "fst (the ?R) \<noteq> - EPIPE"
    using error_reported_once[where d = ?d1 and count = 32 and env = ?env
        and v = V1 and filp = blocking, THEN conjunct2, THEN conjunct2, THEN conjunct1,
        rule_format, OF h3 rd]
    by (rule conjunct1)
  have c: "usb_rt_write V2 4096 blocking 100 quiet_write (stalled V2) = Some (- EPIPE, ?d2)"
    using error_reported_once[where dev = "stalled V2" and count = 100 and wenv = quiet_write
        and v = V2 and filp = blocking and ps = 4096, THEN conjunct2, THEN conjunct1,
        rule_format, OF h2]
    by (simp add: e1)
  have d: "fst (the ?W) \<noteq> - EPIPE"
    using error_reported_once[where d = ?d2 and count = 100 and wenv = quiet_write
        and v = V2 and filp = blocking and ps = 4096, THEN conjunct2, THEN conjunct2,
        THEN conjunct2, rule_format, OF h4 wr]
    by (rule conjunct1)
  from a b c d show ?thesis by (intro conjI)
qed

theorem read_while_receive_outstanding_witness:
  "usb_rt_read V2 nonblocking 32 quiet_read (listening V2) = Some (- EAGAIN, [], listening V2) \<and>
   usb_rt_read V1 blocking 32 quiet_read (listening V1) = None \<and>
   usb_rt_read V1 blocking 32 (quiet_read\<lparr>r_waits := [Wait_signal]\<rparr>) (listening V1) =
     Some (- ERESTARTSYS, [], listening V1) \<and>
   usb_rt_read V2 blocking 32 (quiet_read\<lparr>r_waits := [Wait_timeout]\<rparr>) (listening V2) =
     Some (- ETIMEDOUT, [], listening V2)"
proof -
  have h1: "bulk_in_urb (listening V1)" "(32::size_t) \<noteq> 0" "\<not> torn_down V1 (listening V1)"
    "ongoing_read (listening V1)"
    and h2: "bulk_in_urb (listening V2)" "\<not> torn_down V2 (listening V2)"
    "ongoing_read (listening V2)"
    by code_simp+
  have l: "\<not> r_lock quiet_read < 0" "\<not> r_lock (quiet_read\<lparr>r_waits := [Wait_signal]\<rparr>) < 0"
    "\<not> r_lock (quiet_read\<lparr>r_waits := [Wait_timeout]\<rparr>) < 0"
    by code_simp+
  have f: "f_flags nonblocking AND O_NONBLOCK \<noteq> 0" "f_flags blocking AND O_NONBLOCK = 0"
    by (simp_all add: nonblocking_def blocking_def)
  have w: "r_waits quiet_read = []"
    "r_waits (quiet_read\<lparr>r_waits := [Wait_signal]\<rparr>) = Wait_signal # []"
    "r_waits (quiet_read\<lparr>r_waits := [Wait_timeout]\<rparr>) = Wait_timeout # []"
    by (simp_all add: quiet_read_def)
  have a: "usb_rt_read V2 nonblocking 32 quiet_read (listening V2) = Some (- EAGAIN, [], listening V2)"
    by (rule read_while_receive_outstanding[OF h2(1) h1(2) l(1) h2(2,3), THEN conjunct1,
          rule_format, OF f(1)])
  have b: "usb_rt_read V1 blocking 32 quiet_read (listening V1) = None"
    by (rule read_while_receive_outstanding[OF h1(1) h1(2) l(1) h1(3,4), THEN conjunct2,
          rule_format, OF f(2), THEN conjunct1, rule_format, OF w(1)])
  have c: "usb_rt_read V1 blocking 32 (quiet_read\<lparr>r_waits := [Wait_signal]\<rparr>) (listening V1) =
     Some (- ERESTARTSYS, [], listening V1)"
    by (rule read_while_receive_outstanding[OF h1(1) h1(2) l(2) h1(3,4), THEN conjunct2,
          rule_format, OF f(2), THEN conjunct2, THEN conjunct1, rule_format, OF w(2)])
  have d: "usb_rt_read V2 blocking 32 (quiet_read\<lparr>r_waits := [Wait_timeout]\<rparr>) (listening V2) =
     Some (- ETIMEDOUT, [], listening V2)"
    using read_while_receive_outstanding[OF h2(1) h1(2) l(3) h2(2,3), THEN conjunct2,
          rule_format, OF f(2), THEN conjunct2, THEN conjunct2, THEN conjunct2, rule_format, OF w(3)]
    by (simp only: variant.case)
  from a b c d show ?thesis by (intro conjI)
qed

theorem read_fault_consumes_chunk_witness:
  "(\<exists>data. usb_rt_read V1 blocking 10 (quiet_read\<lparr>r_left := 10\<rparr>) (received V1) =
      Some (- EFAULT, data, (received V1)\<lparr>bulk_in_copied := 10\<rparr>)) \<and>
   usb_rt_read V1 blocking 10 quiet_read ((received V1)\<lparr>bulk_in_copied := 10\<rparr>) =
      Some (10, take 10 (drop 10 (bulk_in_buffer (received V1))),
            (received V1)\<lparr>bulk_in_copied := 20\<rparr>)"
proof -
  let ?env = "quiet_read\<lparr>r_left := 10\<rparr>"
  let ?D = "received V1"
  have h: "bulk_in_urb ?D" "(10::size_t) \<noteq> 0" "\<not> r_lock ?env < 0" "\<not> torn_down V1 ?D"
    "\<not> ongoing_read ?D" "\<not> errors ?D < 0" "bulk_in_copied ?D < bulk_in_filled ?D"
    "r_left ?env \<noteq> 0"
    by code_simp+
  have v: "bulk_in_filled ?D = 32" "bulk_in_copied ?D = 0" by code_simp+
  have ch: "(10::size_t) = min (bulk_in_filled ?D - bulk_in_copied ?D) 10"
    by (simp add: v)
  have d1: "?D\<lparr>bulk_in_copied := 10\<rparr> = ?D\<lparr>bulk_in_copied := bulk_in_copied ?D + 10\<rparr>"
    by (simp add: v)
  have h2: "bulk_in_copied (?D\<lparr>bulk_in_copied := 10\<rparr>) < bulk_in_filled (?D\<lparr>bulk_in_copied := 10\<rparr>)"
    "(10::size_t) < 0x80000000" "\<not> r_lock quiet_read < 0" "r_left quiet_read = 0"
    by (simp_all add: v quiet_read_def)
  note T = read_fault_consumes_chunk[OF h ch d1, of blocking 10 quiet_read blocking]
  from T have a: "\<exists>data. usb_rt_read V1 blocking 10 ?env ?D =
      Some (- EFAULT, data, ?D\<lparr>bulk_in_copied := 10\<rparr>)"
    by (rule conjunct1)
  have "usb_rt_read V1 blocking 10 quiet_read (?D\<lparr>bulk_in_copied := 10\<rparr>) =
          (let chunk2 = min (bulk_in_filled (?D\<lparr>bulk_in_copied := 10\<rparr>) -
                             bulk_in_copied (?D\<lparr>bulk_in_copied := 10\<rparr>)) 10
           in Some (uint chunk2,
                    take (unat chunk2) (drop (unat (bulk_in_copied ?D) + unat (10::size_t))
                      (bulk_in_buffer ?D)),
                    ?D\<lparr>bulk_in_copied := 10\<rparr>
                      \<lparr>bulk_in_copied := bulk_in_copied (?D\<lparr>bulk_in_copied := 10\<rparr>) + chunk2\<rparr>))"
    by (rule T[THEN conjunct2, THEN conjunct2, THEN conjunct2, rule_format, OF h2(1) h(2) h2(2-4)])
  then have b: "usb_rt_read V1 blocking 10 quiet_read (?D\<lparr>bulk_in_copied := 10\<rparr>) =
      Some (10, take 10 (drop 10 (bulk_in_buffer ?D)), ?D\<lparr>bulk_in_copied := 20\<rparr>)"
    by (simp add: v Let_def)
  from a b show ?thesis by (intro conjI)
qed

subsection \<open>Readiness query\<close>





subsection \<open>Disconnect\<close>

lemma kill_tx_frame:
  "rx_in_flight (kill_tx n dev) = rx_in_flight dev \<and>
   ongoing_read (kill_tx n dev) = ongoing_read dev \<and>
   interface (kill_tx n dev) = interface dev \<and>
   disconnected (kill_tx n dev) = disconnected dev \<and>
   kref (kill_tx n dev) = kref dev \<and>
   minor_registered (kill_tx n dev) = minor_registered dev \<and>
   intfdata (kill_tx n dev) = intfdata dev"
  by (induction n arbitrary: dev)
     (simp_all add: usb_complete_tx_def usb_rt_write_bulk_callback_def up_def Let_def)

lemma kill_anchored_frame:
  "rx_in_flight (usb_kill_anchored_urbs dev) = rx_in_flight dev \<and>
   ongoing_read (usb_kill_anchored_urbs dev) = ongoing_read dev \<and>
   interface (usb_kill_anchored_urbs dev) = interface dev \<and>
   disconnected (usb_kill_anchored_urbs dev) = disconnected dev \<and>
   kref (usb_kill_anchored_urbs dev) = kref dev \<and>
   minor_registered (usb_kill_anchored_urbs dev) = minor_registered dev \<and>
   intfdata (usb_kill_anchored_urbs dev) = intfdata dev"
  by (simp add: usb_kill_anchored_urbs_def kill_tx_frame)

lemma kill_urb_in_frame2:
  "interface (usb_kill_urb_in dev) = interface dev \<and>
   disconnected (usb_kill_urb_in dev) = disconnected dev \<and>
   kref (usb_kill_urb_in dev) = kref dev \<and>
   minor_registered (usb_kill_urb_in dev) = minor_registered dev \<and>
   intfdata (usb_kill_urb_in dev) = intfdata dev"
  by (simp add: usb_kill_urb_in_def usb_complete_rx_def usb_rt_read_bulk_callback_def Let_def)

lemma kref_put_frame:
  "kref (kref_put dev) = kref dev - 1 \<and>
   rx_in_flight (kref_put dev) = rx_in_flight dev \<and>
   ongoing_read (kref_put dev) = ongoing_read dev \<and>
   tx_in_flight (kref_put dev) = tx_in_flight dev \<and>
   interface (kref_put dev) = interface dev \<and>
   disconnected (kref_put dev) = disconnected dev \<and>
   minor_registered (kref_put dev) = minor_registered dev \<and>
   intfdata (kref_put dev) = intfdata dev"
  by (simp add: kref_put_def usb_rt_delete_def)

lemma draw_down_not_in_flight: "\<not> rx_in_flight (usb_rt_draw_down sts dev)"
  by (simp add: usb_rt_draw_down_def Let_def split_beta kill_urb_in_frame)

text \<open>Claim C7. Both copies of \<^verbatim>\<open>usb_rt_disconnect\<close> unregister the node (a later
  \<^verbatim>\<open>open\<close> fails with \<^verbatim>\<open>-ENODEV\<close>), mark the session torn down, cancel every
  send in flight and drop one reference. The second copy also cancels the receive URB, as
  \<^verbatim>\<open>usb_rt_draw_down\<close> does in both copies. The first copy never calls
  \<^verbatim>\<open>usb_kill_urb\<close> on the receive URB: a receive in flight before the disconnect is
  still in flight after it, as in the session \<open>listening V1\<close>; and its readiness query,
  which does not look at the torn-down mark, starts a receive on the disconnected
  session, where the second copy returns \<^verbatim>\<open>-ENODEV\<close>.\<close>

theorem disconnect_receive_not_cancelled:
  "fst (usb_rt_open pm (usb_rt_disconnect v dev)) = - ENODEV \<and>
   torn_down v (usb_rt_disconnect v dev) \<and>
   tx_in_flight (usb_rt_disconnect v dev) = 0 \<and>
   kref (usb_rt_disconnect v dev) = kref dev - 1 \<and>
   \<not> rx_in_flight (usb_rt_disconnect V2 dev) \<and>
   rx_in_flight (usb_rt_disconnect V1 dev) = rx_in_flight dev \<and>
   ongoing_read (usb_rt_disconnect V1 dev) = ongoing_read dev \<and>
   Usb_kill_urb_bulk_in \<notin> set (usb_rt_disconnect_calls_v1 dev) \<and>
   Usb_kill_urb_bulk_in \<in> set (usb_rt_disconnect_calls_v2 dev) \<and>
   \<not> rx_in_flight (usb_rt_draw_down sts dev) \<and>
   rx_in_flight (listening V1) \<and> rx_in_flight (usb_rt_disconnect V1 (listening V1)) \<and>
   rx_in_flight (snd (usb_rt_poll V1 0 0 (usb_rt_disconnect V1 (opened V1)))) \<and>
   usb_rt_poll V2 0 0 (usb_rt_disconnect V2 (opened V2)) =
     (word_of_int (- ENODEV), usb_rt_disconnect V2 (opened V2))"
proof -
  have l: "rx_in_flight (listening V1)"
    "rx_in_flight (snd (usb_rt_poll V1 0 0 (usb_rt_disconnect V1 (opened V1))))"
    "usb_rt_poll V2 0 0 (usb_rt_disconnect V2 (opened V2)) =
       (word_of_int (- ENODEV), usb_rt_disconnect V2 (opened V2))"
    by code_simp+
  have g: "fst (usb_rt_open pm (usb_rt_disconnect v dev)) = - ENODEV \<and>
   torn_down v (usb_rt_disconnect v dev) \<and>
   tx_in_flight (usb_rt_disconnect v dev) = 0 \<and>
   kref (usb_rt_disconnect v dev) = kref dev - 1 \<and>
   \<not> rx_in_flight (usb_rt_disconnect V2 dev) \<and>
   rx_in_flight (usb_rt_disconnect V1 dev) = rx_in_flight dev \<and>
   ongoing_read (usb_rt_disconnect V1 dev) = ongoing_read dev \<and>
   Usb_kill_urb_bulk_in \<notin> set (usb_rt_disconnect_calls_v1 dev) \<and>
   Usb_kill_urb_bulk_in \<in> set (usb_rt_disconnect_calls_v2 dev) \<and>
   \<not> rx_in_flight (usb_rt_draw_down sts dev)" for dev
    by (cases v)
       (simp_all add: usb_rt_disconnect_def usb_rt_disconnect_v1_def usb_rt_disconnect_v2_def
         usb_rt_disconnect_calls_v1_def usb_rt_disconnect_calls_v2_def usb_rt_open_def
         torn_down_def kref_put_frame kill_anchored_frame kill_anchored_idle kill_urb_in_frame
         kill_urb_in_frame2 draw_down_not_in_flight)
  from g[of "listening V1"] l(1) have c: "rx_in_flight (usb_rt_disconnect V1 (listening V1))"
    by blast
  from g[of dev] l c show ?thesis by blast
qed

end
